theory Spec2Isabelle
  imports Main "HOL-Library.Word" "HOL-Library.Sublist" "HOL-Library.List_Lexorder"
    "HOL-Library.Multiset"
begin

unbundle bit_operations_syntax

section \<open>Strings of the platform\<close>

text \<open>
  A JavaScript string is a sequence of 16-bit code units. String literals of the source
  are ASCII and are embedded by \<open>lit\<close>. The string methods the routes call are written out
  on code-unit lists: \<open>includes\<close> tries every start position, \<open>slice\<close> with two
  non-negative indices cuts a range and clamps at the end of the string.
\<close>

type_synonym code_unit = "16 word"
type_synonym jsstring = "code_unit list"

definition lit :: "string \<Rightarrow> jsstring" where
  "lit s = map of_char s"

fun startsWith :: "jsstring \<Rightarrow> jsstring \<Rightarrow> bool" where
  "startsWith s [] = True"
| "startsWith [] (p # ps) = False"
| "startsWith (c # cs) (p # ps) = (c = p \<and> startsWith cs ps)"

fun String_includes :: "jsstring \<Rightarrow> jsstring \<Rightarrow> bool" where
  "String_includes [] pat = startsWith [] pat"
| "String_includes (c # cs) pat = (startsWith (c # cs) pat \<or> String_includes cs pat)"

definition String_slice :: "jsstring \<Rightarrow> nat \<Rightarrow> nat \<Rightarrow> jsstring" where
  "String_slice s b e = take (e - b) (drop b s)"

text \<open>
  \<open>toLowerCase\<close> on the code units a header value can hold (a header value is a byte
  string: code units up to 255); other code units are left as they are.
\<close>

definition lower_unit :: "code_unit \<Rightarrow> code_unit" where
  "lower_unit c =
     (if 0x41 \<le> c \<and> c \<le> 0x5A then c + 0x20
      else if 0xC0 \<le> c \<and> c \<le> 0xDE \<and> c \<noteq> 0xD7 then c + 0x20
      else c)"

definition String_toLowerCase :: "jsstring \<Rightarrow> jsstring" where
  "String_toLowerCase s = map lower_unit s"

text \<open>
  The number of bytes of a string on the wire (UTF-8): one, two or three bytes for a
  code unit of the basic plane, four for a surrogate pair; a lone surrogate is sent as
  the three-byte replacement character.
\<close>

fun utf8_length :: "jsstring \<Rightarrow> nat" where
  "utf8_length [] = 0"
| "utf8_length [c] = (if c < 0x80 then 1 else if c < 0x800 then 2 else 3)"
| "utf8_length (c # d # cs) =
     (if c < 0x80 then 1 + utf8_length (d # cs)
      else if c < 0x800 then 2 + utf8_length (d # cs)
      else if 0xD800 \<le> c \<and> c < 0xDC00 \<and> 0xDC00 \<le> d \<and> d < 0xE000
        then 4 + utf8_length cs
      else 3 + utf8_length (d # cs))"

text \<open>
  \<open>localeCompare\<close> as the comparison of code units, first difference deciding and a
  proper prefix first. On timestamps in the 24-character form of \<open>toISOString\<close>, where
  punctuation stands at fixed positions and only digits differ, the platform's collation
  decides the same way.
\<close>

fun String_localeCompare :: "jsstring \<Rightarrow> jsstring \<Rightarrow> int" where
  "String_localeCompare [] [] = 0"
| "String_localeCompare [] (y # ys) = - 1"
| "String_localeCompare (x # xs) [] = 1"
| "String_localeCompare (x # xs) (y # ys) =
     (if x < y then - 1 else if y < x then 1 else String_localeCompare xs ys)"


section \<open>Values of the platform\<close>

text \<open>
  The values \<open>JSON.parse\<close> returns and \<open>c.json\<close> serialises: null, booleans, numbers,
  strings, arrays, and objects as lists of properties in the order of their keys.
  Numbers are floating-point values of the platform: their type \<open>'n\<close> is left open.
\<close>

datatype 'n json =
    JNull
  | JBool bool
  | JNumber 'n
  | JString jsstring
  | JArray "'n json list"
  | JObject "(jsstring \<times> 'n json) list"

text \<open>
  What the platform does with numbers is left to three functions: the value of a number
  token, the text \<open>JSON.stringify\<close> writes for a number, and whether a number counts as
  true (it does unless it is zero or not a number). The platform also decides on which
  values \<open>JSON.stringify\<close> returns: it throws a \<open>RangeError\<close> on a value that is nested
  too deeply for its stack.
\<close>

record 'n platform =
  StringToNumber :: "jsstring \<Rightarrow> 'n"
  NumberToString :: "'n \<Rightarrow> jsstring"
  NumberToBoolean :: "'n \<Rightarrow> bool"
  StringifyReturns :: "'n json \<Rightarrow> bool"

subsection \<open>JSON.parse\<close>

text \<open>
  \<open>JSON.parse\<close> reads one value between optional white space and throws a
  \<open>SyntaxError\<close> on anything else. The grammar is that of JSON: strings with the
  escapes of JSON (quote, backslash, slash, b, f, n, r, t, and u with four hexadecimal
  digits) and no control characters, numbers with an
  optional fraction and exponent and no leading zero, the three literals, arrays and
  objects. A key that occurs twice keeps its first place and its last value; keys that
  are array indices come first in ascending order, as the properties of an object do.
  Arrays and objects nest, so the parser carries fuel; the fuel \<open>JSON.parse\<close> starts
  with is never used up (lemma \<open>JSON_parse_never_OutOfFuel\<close>).
\<close>

definition isWhiteSpace :: "code_unit \<Rightarrow> bool" where
  "isWhiteSpace c \<longleftrightarrow> c = 0x09 \<or> c = 0x0A \<or> c = 0x0D \<or> c = 0x20"

definition skipWhiteSpace :: "jsstring \<Rightarrow> jsstring" where
  "skipWhiteSpace s = dropWhile isWhiteSpace s"

definition isDigit :: "code_unit \<Rightarrow> bool" where
  "isDigit c \<longleftrightarrow> 0x30 \<le> c \<and> c \<le> 0x39"

definition hexValue :: "code_unit \<Rightarrow> code_unit option" where
  "hexValue c =
     (if 0x30 \<le> c \<and> c \<le> 0x39 then Some (c - 0x30)
      else if 0x41 \<le> c \<and> c \<le> 0x46 then Some (c - 0x37)
      else if 0x61 \<le> c \<and> c \<le> 0x66 then Some (c - 0x57)
      else None)"

definition unescape :: "code_unit \<Rightarrow> code_unit option" where
  "unescape e =
     (if e = 0x22 \<or> e = 0x5C \<or> e = 0x2F then Some e
      else if e = 0x62 then Some 0x08
      else if e = 0x66 then Some 0x0C
      else if e = 0x6E then Some 0x0A
      else if e = 0x72 then Some 0x0D
      else if e = 0x74 then Some 0x09
      else None)"

definition hex4 :: "code_unit \<Rightarrow> code_unit \<Rightarrow> code_unit \<Rightarrow> code_unit \<Rightarrow> code_unit option" where
  "hex4 h1 h2 h3 h4 =
     (case (hexValue h1, hexValue h2, hexValue h3, hexValue h4) of
        (Some a, Some b, Some c, Some d) \<Rightarrow> Some (a * 0x1000 + b * 0x100 + c * 0x10 + d)
      | _ \<Rightarrow> None)"

definition consChar :: "code_unit \<Rightarrow> (jsstring \<times> jsstring) option \<Rightarrow> (jsstring \<times> jsstring) option" where
  "consChar c r = (case r of None \<Rightarrow> None | Some (str, rest) \<Rightarrow> Some (c # str, rest))"

fun parseStringChars :: "jsstring \<Rightarrow> (jsstring \<times> jsstring) option" where
  "parseStringChars [] = None"
| "parseStringChars (c # cs) =
     (if c = 0x22 then Some ([], cs)
      else if c = 0x5C then
        (case cs of
           [] \<Rightarrow> None
         | e # es \<Rightarrow>
             if e = 0x75 then
               (case es of
                  h1 # h2 # h3 # h4 # rest \<Rightarrow>
                    (case hex4 h1 h2 h3 h4 of
                       None \<Rightarrow> None
                     | Some u \<Rightarrow> consChar u (parseStringChars rest))
                | _ \<Rightarrow> None)
             else
               (case unescape e of
                  None \<Rightarrow> None
                | Some u \<Rightarrow> consChar u (parseStringChars es)))
      else if c < 0x20 then None
      else consChar c (parseStringChars cs))"

definition scanDigits :: "jsstring \<Rightarrow> (jsstring \<times> jsstring) option" where
  "scanDigits s =
     (if takeWhile isDigit s = [] then None
      else Some (takeWhile isDigit s, dropWhile isDigit s))"

definition scanInt :: "jsstring \<Rightarrow> (jsstring \<times> jsstring) option" where
  "scanInt s =
     (case s of
        [] \<Rightarrow> None
      | c # cs \<Rightarrow> if c = 0x30 then Some ([c], cs) else scanDigits s)"

definition scanFraction :: "jsstring \<Rightarrow> (jsstring \<times> jsstring) option" where
  "scanFraction s =
     (case s of
        [] \<Rightarrow> Some ([], s)
      | c # cs \<Rightarrow>
          if c = 0x2E then
            (case scanDigits cs of None \<Rightarrow> None | Some (ds, rest) \<Rightarrow> Some (c # ds, rest))
          else Some ([], s))"

definition scanSign :: "jsstring \<Rightarrow> jsstring \<times> jsstring" where
  "scanSign s =
     (case s of
        [] \<Rightarrow> ([], s)
      | c # cs \<Rightarrow> if c = 0x2B \<or> c = 0x2D then ([c], cs) else ([], s))"

definition scanExponent :: "jsstring \<Rightarrow> (jsstring \<times> jsstring) option" where
  "scanExponent s =
     (case s of
        [] \<Rightarrow> Some ([], s)
      | c # cs \<Rightarrow>
          if c = 0x65 \<or> c = 0x45 then
            (case scanDigits (snd (scanSign cs)) of
               None \<Rightarrow> None
             | Some (ds, rest) \<Rightarrow> Some (c # fst (scanSign cs) @ ds, rest))
          else Some ([], s))"

definition scanNumber :: "jsstring \<Rightarrow> (jsstring \<times> jsstring) option" where
  "scanNumber s =
     (let (minus, s0) = (case s of [] \<Rightarrow> ([], s) | c # cs \<Rightarrow> if c = 0x2D then ([c], cs) else ([], s))
      in case scanInt s0 of
           None \<Rightarrow> None
         | Some (i, s1) \<Rightarrow>
             (case scanFraction s1 of
                None \<Rightarrow> None
              | Some (f, s2) \<Rightarrow>
                  (case scanExponent s2 of
                     None \<Rightarrow> None
                   | Some (e, s3) \<Rightarrow> Some (minus @ i @ f @ e, s3))))"

definition decimalValue :: "jsstring \<Rightarrow> int" where
  "decimalValue k = foldl (\<lambda>n c. 10 * n + uint (c - 0x30)) 0 k"

definition arrayIndex :: "jsstring \<Rightarrow> int option" where
  "arrayIndex k =
     (if k \<noteq> [] \<and> list_all isDigit k \<and> (hd k \<noteq> 0x30 \<or> length k = 1)
         \<and> decimalValue k < 4294967295
      then Some (decimalValue k) else None)"

fun replaceProperty :: "jsstring \<Rightarrow> 'v \<Rightarrow> (jsstring \<times> 'v) list \<Rightarrow> (jsstring \<times> 'v) list" where
  "replaceProperty k v [] = []"
| "replaceProperty k v ((k', v') # ps) =
     (if k' = k then (k, v) # ps else (k', v') # replaceProperty k v ps)"

fun insertIndex :: "int \<Rightarrow> jsstring \<Rightarrow> 'v \<Rightarrow> (jsstring \<times> 'v) list \<Rightarrow> (jsstring \<times> 'v) list" where
  "insertIndex i k v [] = [(k, v)]"
| "insertIndex i k v ((k', v') # ps) =
     (case arrayIndex k' of
        Some j \<Rightarrow> if j < i then (k', v') # insertIndex i k v ps else (k, v) # (k', v') # ps
      | None \<Rightarrow> (k, v) # (k', v') # ps)"

definition putProperty :: "(jsstring \<times> 'v) list \<Rightarrow> jsstring \<Rightarrow> 'v \<Rightarrow> (jsstring \<times> 'v) list" where
  "putProperty ps k v =
     (if map_of ps k \<noteq> None then replaceProperty k v ps
      else case arrayIndex k of
             None \<Rightarrow> ps @ [(k, v)]
           | Some i \<Rightarrow> insertIndex i k v ps)"

datatype 'a parsed = Parsed 'a jsstring | SyntaxError | OutOfFuel

definition parseAtom :: "(jsstring \<Rightarrow> 'n) \<Rightarrow> jsstring \<Rightarrow> 'n json parsed" where
  "parseAtom num s =
     (case s of
        [] \<Rightarrow> SyntaxError
      | c # cs \<Rightarrow>
          if c = 0x22 then
            (case parseStringChars cs of
               None \<Rightarrow> SyntaxError
             | Some (str, rest) \<Rightarrow> Parsed (JString str) rest)
          else if startsWith s (lit ''null'') then Parsed JNull (drop 4 s)
          else if startsWith s (lit ''true'') then Parsed (JBool True) (drop 4 s)
          else if startsWith s (lit ''false'') then Parsed (JBool False) (drop 5 s)
          else
            (case scanNumber s of
               None \<Rightarrow> SyntaxError
             | Some (lexeme, rest) \<Rightarrow> Parsed (JNumber (num lexeme)) rest))"

definition parseKey :: "jsstring \<Rightarrow> (jsstring \<times> jsstring) option" where
  "parseKey s =
     (case s of
        [] \<Rightarrow> None
      | c # cs \<Rightarrow>
          if c = 0x22 then
            (case parseStringChars cs of
               None \<Rightarrow> None
             | Some (key, rest) \<Rightarrow>
                 (case skipWhiteSpace rest of
                    [] \<Rightarrow> None
                  | d # ds \<Rightarrow>
                      if d = 0x3A then Some (key, skipWhiteSpace ds) else None))
          else None)"

fun parseValue :: "(jsstring \<Rightarrow> 'n) \<Rightarrow> nat \<Rightarrow> jsstring \<Rightarrow> 'n json parsed"
  and parseElements ::
    "(jsstring \<Rightarrow> 'n) \<Rightarrow> nat \<Rightarrow> jsstring \<Rightarrow> 'n json list \<Rightarrow> 'n json parsed"
  and parseMembers ::
    "(jsstring \<Rightarrow> 'n) \<Rightarrow> nat \<Rightarrow> jsstring \<Rightarrow> (jsstring \<times> 'n json) list \<Rightarrow> 'n json parsed"
where
  "parseValue num 0 s = OutOfFuel"
| "parseValue num (Suc n) s =
     (case s of
        [] \<Rightarrow> SyntaxError
      | c # cs \<Rightarrow>
          if c = 0x5B then
            (case skipWhiteSpace cs of
               [] \<Rightarrow> SyntaxError
             | d # ds \<Rightarrow>
                 if d = 0x5D then Parsed (JArray []) ds
                 else parseElements num n (d # ds) [])
          else if c = 0x7B then
            (case skipWhiteSpace cs of
               [] \<Rightarrow> SyntaxError
             | d # ds \<Rightarrow>
                 if d = 0x7D then Parsed (JObject []) ds
                 else parseMembers num n (d # ds) [])
          else parseAtom num s)"
| "parseElements num 0 s acc = OutOfFuel"
| "parseElements num (Suc n) s acc =
     (case parseValue num n s of
        Parsed v rest \<Rightarrow>
          (case skipWhiteSpace rest of
             [] \<Rightarrow> SyntaxError
           | d # ds \<Rightarrow>
               if d = 0x2C then parseElements num n (skipWhiteSpace ds) (acc @ [v])
               else if d = 0x5D then Parsed (JArray (acc @ [v])) ds
               else SyntaxError)
      | SyntaxError \<Rightarrow> SyntaxError
      | OutOfFuel \<Rightarrow> OutOfFuel)"
| "parseMembers num 0 s acc = OutOfFuel"
| "parseMembers num (Suc n) s acc =
     (case parseKey s of
        None \<Rightarrow> SyntaxError
      | Some (key, s') \<Rightarrow>
          (case parseValue num n s' of
             Parsed v rest \<Rightarrow>
               (case skipWhiteSpace rest of
                  [] \<Rightarrow> SyntaxError
                | d # ds \<Rightarrow>
                    if d = 0x2C then
                      parseMembers num n (skipWhiteSpace ds) (putProperty acc key v)
                    else if d = 0x7D then Parsed (JObject (putProperty acc key v)) ds
                    else SyntaxError)
           | SyntaxError \<Rightarrow> SyntaxError
           | OutOfFuel \<Rightarrow> OutOfFuel))"

definition JSON_parse :: "'n platform \<Rightarrow> jsstring \<Rightarrow> 'n json option" where
  "JSON_parse N str =
     (case parseValue (StringToNumber N) (Suc (2 * length str)) (skipWhiteSpace str) of
        Parsed v rest \<Rightarrow> if skipWhiteSpace rest = [] then Some v else None
      | SyntaxError \<Rightarrow> None
      | OutOfFuel \<Rightarrow> None)"

subsection \<open>JSON.stringify\<close>

text \<open>
  \<open>JSON.stringify\<close> with one argument: no indentation, properties in their order,
  strings quoted with the short escapes, and the escape with four hexadecimal digits
  for the other control characters and for lone surrogates. \<open>JSON_stringify\<close> is the
  text it returns where it returns (\<open>StringifyReturns\<close>).
\<close>

definition hexDigit :: "code_unit \<Rightarrow> code_unit" where
  "hexDigit d = (if d < 10 then 0x30 + d else 0x57 + d)"

definition unicodeEscape :: "code_unit \<Rightarrow> jsstring" where
  "unicodeEscape c =
     [0x5C, 0x75, hexDigit (drop_bit 12 c), hexDigit (drop_bit 8 c AND 0xF),
      hexDigit (drop_bit 4 c AND 0xF), hexDigit (c AND 0xF)]"

definition quoteUnit :: "code_unit \<Rightarrow> jsstring" where
  "quoteUnit c =
     (if c = 0x08 then [0x5C, 0x62]
      else if c = 0x09 then [0x5C, 0x74]
      else if c = 0x0A then [0x5C, 0x6E]
      else if c = 0x0C then [0x5C, 0x66]
      else if c = 0x0D then [0x5C, 0x72]
      else if c = 0x22 then [0x5C, 0x22]
      else if c = 0x5C then [0x5C, 0x5C]
      else if c < 0x20 then unicodeEscape c
      else [c])"

definition isLeadingSurrogate :: "code_unit \<Rightarrow> bool" where
  "isLeadingSurrogate c \<longleftrightarrow> 0xD800 \<le> c \<and> c \<le> 0xDBFF"

definition isTrailingSurrogate :: "code_unit \<Rightarrow> bool" where
  "isTrailingSurrogate c \<longleftrightarrow> 0xDC00 \<le> c \<and> c \<le> 0xDFFF"

fun quoteChars :: "jsstring \<Rightarrow> jsstring" where
  "quoteChars [] = []"
| "quoteChars (c # cs) =
     (if isLeadingSurrogate c then
        (case cs of
           [] \<Rightarrow> unicodeEscape c
         | d # ds \<Rightarrow>
             if isTrailingSurrogate d then c # d # quoteChars ds
             else unicodeEscape c @ quoteChars cs)
      else if isTrailingSurrogate c then unicodeEscape c @ quoteChars cs
      else quoteUnit c @ quoteChars cs)"

definition QuoteJSONString :: "jsstring \<Rightarrow> jsstring" where
  "QuoteJSONString s = 0x22 # quoteChars s @ [0x22]"

fun joinComma :: "jsstring list \<Rightarrow> jsstring" where
  "joinComma [] = []"
| "joinComma [x] = x"
| "joinComma (x # y # ys) = x @ 0x2C # joinComma (y # ys)"

fun JSON_stringify :: "'n platform \<Rightarrow> 'n json \<Rightarrow> jsstring" where
  "JSON_stringify N JNull = lit ''null''"
| "JSON_stringify N (JBool b) = (if b then lit ''true'' else lit ''false'')"
| "JSON_stringify N (JNumber x) = NumberToString N x"
| "JSON_stringify N (JString s) = QuoteJSONString s"
| "JSON_stringify N (JArray vs) = 0x5B # joinComma (map (JSON_stringify N) vs) @ [0x5D]"
| "JSON_stringify N (JObject ps) =
     0x7B # joinComma (map (\<lambda>(k, v). QuoteJSONString k @ 0x3A # JSON_stringify N v) ps) @ [0x7D]"

subsection \<open>Properties and truth\<close>

text \<open>
  Reading and writing a property of a parsed value. The route reads and writes the keys
  \<open>error\<close> and \<open>message\<close> only; no array, string, number or boolean has a property of
  these names, so \<open>getProperty\<close> is undefined (\<open>None\<close>) on them. Reading a property of
  \<open>null\<close> throws; that case is with the caller.
\<close>

definition getProperty :: "'n json \<Rightarrow> jsstring \<Rightarrow> 'n json option" where
  "getProperty v k = (case v of JObject ps \<Rightarrow> map_of ps k | _ \<Rightarrow> None)"

definition setProperty :: "'n json \<Rightarrow> jsstring \<Rightarrow> 'n json \<Rightarrow> 'n json" where
  "setProperty obj k v = (case obj of JObject ps \<Rightarrow> JObject (putProperty ps k v) | _ \<Rightarrow> obj)"

fun ToBoolean :: "'n platform \<Rightarrow> 'n json option \<Rightarrow> bool" where
  "ToBoolean N None = False"
| "ToBoolean N (Some JNull) = False"
| "ToBoolean N (Some (JBool b)) = b"
| "ToBoolean N (Some (JNumber x)) = NumberToBoolean N x"
| "ToBoolean N (Some (JString s)) = (s \<noteq> [])"
| "ToBoolean N (Some (JArray vs)) = True"
| "ToBoolean N (Some (JObject ps)) = True"

definition Array_includes :: "'n json list \<Rightarrow> jsstring \<Rightarrow> bool" where
  "Array_includes vs s \<longleftrightarrow> JString s \<in> set vs"


section \<open>routes/websocket.ts\<close>

subsection \<open>transformErrorMessage\<close>

definition transformErrorMessage :: "jsstring \<Rightarrow> jsstring \<Rightarrow> jsstring" where
  "transformErrorMessage message host =
     (if String_includes message (lit ''gateway token missing'')
         \<or> String_includes message (lit ''gateway token mismatch'')
      then lit ''Invalid or missing token. Visit https://'' @ host
             @ lit ''?token={REPLACE_WITH_YOUR_TOKEN}''
      else if String_includes message (lit ''pairing required'')
      then lit ''Pairing required. Visit https://'' @ host @ lit ''/_admin/''
      else message)"

subsection \<open>The listeners of a relay session\<close>

text \<open>
  A listener is a function from its event to the calls it makes on the other socket.
  \<open>ServerWs\<close> is the worker's end of the pair whose other end the client holds;
  \<open>ContainerWs\<close> is the socket to the gateway.
\<close>

datatype endpoint = ServerWs | ContainerWs

datatype readyState = CONNECTING | OPEN | CLOSING | CLOSED

datatype data = Text jsstring | Binary "8 word list"

datatype sockcall =
    SendCall endpoint data
  | CloseCall endpoint nat jsstring

text \<open>
  The message listener of the gateway's socket calls \<open>transformErrorMessage\<close> with
  whatever \<open>parsed.error.message\<close> holds. On a string this is the function above. An
  array has an \<open>includes\<close> method too, which looks for an element equal to the phrase.
  Any other value has none, and the call throws a \<open>TypeError\<close> (\<open>None\<close>).
\<close>

fun transformErrorMessage_any :: "'n json \<Rightarrow> jsstring \<Rightarrow> 'n json option" where
  "transformErrorMessage_any (JString message) host =
     Some (JString (transformErrorMessage message host))"
| "transformErrorMessage_any (JArray message) host =
     Some (if Array_includes message (lit ''gateway token missing'')
              \<or> Array_includes message (lit ''gateway token mismatch'')
           then JString (lit ''Invalid or missing token. Visit https://'' @ host
                         @ lit ''?token={REPLACE_WITH_YOUR_TOKEN}'')
           else if Array_includes message (lit ''pairing required'')
           then JString (lit ''Pairing required. Visit https://'' @ host @ lit ''/_admin/'')
           else JArray message)"
| "transformErrorMessage_any JNull host = None"
| "transformErrorMessage_any (JBool b) host = None"
| "transformErrorMessage_any (JNumber x) host = None"
| "transformErrorMessage_any (JObject ps) host = None"

text \<open>
  \<open>parsed.error?.message\<close>: throws (\<open>None\<close>) when \<open>parsed\<close> is \<open>null\<close>, is undefined
  when \<open>parsed.error\<close> is \<open>null\<close> or undefined, and reads the property otherwise.
\<close>

definition readErrorMessage :: "'n json \<Rightarrow> 'n json option option" where
  "readErrorMessage parsed =
     (case parsed of
        JNull \<Rightarrow> None
      | _ \<Rightarrow>
          (case getProperty parsed (lit ''error'') of
             None \<Rightarrow> Some None
           | Some JNull \<Rightarrow> Some None
           | Some error \<Rightarrow> Some (getProperty error (lit ''message''))))"

definition assignErrorMessage :: "'n json \<Rightarrow> 'n json \<Rightarrow> 'n json" where
  "assignErrorMessage parsed m =
     (case getProperty parsed (lit ''error'') of
        None \<Rightarrow> parsed
      | Some error \<Rightarrow> setProperty parsed (lit ''error'') (setProperty error (lit ''message'') m))"

text \<open>
  The \<open>try\<close> block of the listener: every exception inside it (the \<open>SyntaxError\<close> of
  \<open>JSON.parse\<close>, a \<open>TypeError\<close>, the \<open>RangeError\<close> of \<open>JSON.stringify\<close>) is caught and
  leaves \<open>data\<close> as it came: \<open>data\<close> is assigned only when \<open>JSON.stringify\<close> has returned.
\<close>

definition intercept :: "'n platform \<Rightarrow> jsstring \<Rightarrow> jsstring \<Rightarrow> jsstring" where
  "intercept N host text =
     (case JSON_parse N text of
        None \<Rightarrow> text
      | Some parsed \<Rightarrow>
          (case readErrorMessage parsed of
             None \<Rightarrow> text
           | Some message \<Rightarrow>
               if ToBoolean N message then
                 (case message of
                    None \<Rightarrow> text
                  | Some m \<Rightarrow>
                      (case transformErrorMessage_any m host of
                         None \<Rightarrow> text
                       | Some m' \<Rightarrow>
                           if StringifyReturns N (assignErrorMessage parsed m')
                           then JSON_stringify N (assignErrorMessage parsed m')
                           else text))
               else text))"

definition serverWs_message :: "readyState \<Rightarrow> data \<Rightarrow> sockcall list" where
  "serverWs_message containerReadyState d =
     (if containerReadyState = OPEN then [SendCall ContainerWs d] else [])"

definition containerWs_message ::
  "'n platform \<Rightarrow> jsstring \<Rightarrow> readyState \<Rightarrow> data \<Rightarrow> sockcall list" where
  "containerWs_message N host serverReadyState d =
     (let d' = (case d of Text text \<Rightarrow> Text (intercept N host text) | Binary b \<Rightarrow> Binary b)
      in if serverReadyState = OPEN then [SendCall ServerWs d'] else [])"

text \<open>
  The \<open>error.message\<close> field of a parsed value, where it has one: the value is an object
  whose \<open>error\<close> is an object with a \<open>message\<close>.
\<close>

definition error_message_field :: "'n json \<Rightarrow> 'n json option" where
  "error_message_field parsed =
     (case parsed of
        JObject ps \<Rightarrow>
          (case map_of ps (lit ''error'') of
             Some (JObject es) \<Rightarrow> map_of es (lit ''message'')
           | _ \<Rightarrow> None)
      | _ \<Rightarrow> None)"

definition serverWs_close :: "nat \<Rightarrow> jsstring \<Rightarrow> sockcall list" where
  "serverWs_close code reason = [CloseCall ContainerWs code reason]"

definition containerWs_close :: "jsstring \<Rightarrow> nat \<Rightarrow> jsstring \<Rightarrow> sockcall list" where
  "containerWs_close host code reason0 =
     (let reason = transformErrorMessage reason0 host;
          reason = (if length reason > 123
                    then String_slice reason 0 120 @ lit ''...''
                    else reason)
      in [CloseCall ServerWs code reason])"

definition serverWs_error :: "'e \<Rightarrow> sockcall list" where
  "serverWs_error event = [CloseCall ContainerWs 1011 (lit ''Client error'')]"

definition containerWs_error :: "'e \<Rightarrow> sockcall list" where
  "containerWs_error event = [CloseCall ServerWs 1011 (lit ''Container error'')]"


subsection \<open>GET /ws\<close>

text \<open>
  The route reads the request's \<open>Upgrade\<close> header and the host of its URL, and calls
  three functions of the sandbox and the gateway module. Their results are the
  environment of one run: each either returns or throws. The run ends with a response
  or with an exception the route does not catch, and the model records the calls it made
  in their order.
\<close>

record request =
  upgrade :: "jsstring option"
  url_host :: jsstring

record process =
  process_status :: jsstring

datatype thrown =
    ErrorInstance jsstring
  | OtherValue

type_synonym socket = nat

record response =
  resp_status :: nat
  resp_headers :: "(jsstring \<times> jsstring) list"
  resp_body :: "8 word list"
  webSocket :: "socket option"

record env =
  findExistingMoltbotProcess :: "thrown + process option"
  ensureMoltbotGateway :: "thrown + unit"
  wsConnect :: "thrown + response"

datatype listener = OnMessage | OnClose | OnError

datatype call =
    FindExistingMoltbotProcess
  | EnsureMoltbotGateway
  | WsConnect
  | NewWebSocketPair
  | Accept endpoint
  | AddEventListener endpoint listener

datatype 'n outcome =
    JsonResponse "'n json" nat
  | ContainerResponse response
  | SwitchingProtocols
  | Uncaught thrown

definition isWebSocketRequest :: "request \<Rightarrow> bool" where
  "isWebSocketRequest req =
     (case upgrade req of
        None \<Rightarrow> False
      | Some v \<Rightarrow> String_toLowerCase v = lit ''websocket'')"

definition isGatewayReady :: "process option \<Rightarrow> bool" where
  "isGatewayReady existingProcess =
     (case existingProcess of
        None \<Rightarrow> False
      | Some p \<Rightarrow> process_status p = lit ''running'')"

fun errorMessage :: "thrown \<Rightarrow> jsstring" where
  "errorMessage (ErrorInstance message) = message"
| "errorMessage OtherValue = lit ''Unknown error''"

definition relay_setup :: "call list" where
  "relay_setup =
     [NewWebSocketPair, Accept ServerWs, Accept ContainerWs,
      AddEventListener ServerWs OnMessage, AddEventListener ContainerWs OnMessage,
      AddEventListener ServerWs OnClose, AddEventListener ContainerWs OnClose,
      AddEventListener ServerWs OnError, AddEventListener ContainerWs OnError]"

definition connect :: "env \<Rightarrow> call list \<Rightarrow> 'n outcome \<times> call list" where
  "connect e calls =
     (case wsConnect e of
        Inl t \<Rightarrow> (Uncaught t, calls @ [WsConnect])
      | Inr containerResponse \<Rightarrow>
          (case webSocket containerResponse of
             None \<Rightarrow> (ContainerResponse containerResponse, calls @ [WsConnect])
           | Some containerWs \<Rightarrow>
               (SwitchingProtocols, calls @ [WsConnect] @ relay_setup)))"

definition ws_route :: "env \<Rightarrow> request \<Rightarrow> 'n outcome \<times> call list" where
  "ws_route e req =
     (if \<not> isWebSocketRequest req
      then (JsonResponse
              (JObject [(lit ''error'', JString (lit ''WebSocket upgrade required''))]) 426,
            [])
      else
        (case findExistingMoltbotProcess e of
           Inl t \<Rightarrow> (Uncaught t, [FindExistingMoltbotProcess])
         | Inr existingProcess \<Rightarrow>
             if \<not> isGatewayReady existingProcess
             then
               (case ensureMoltbotGateway e of
                  Inl error \<Rightarrow>
                    (JsonResponse
                       (JObject [(lit ''error'', JString (lit ''Moltbot gateway failed to start'')),
                                 (lit ''details'', JString (errorMessage error))]) 503,
                     [FindExistingMoltbotProcess, EnsureMoltbotGateway])
                | Inr u \<Rightarrow>
                    connect e [FindExistingMoltbotProcess, EnsureMoltbotGateway])
             else connect e [FindExistingMoltbotProcess]))"


section \<open>routes/debug.ts: the order of GET /debug/processes\<close>

text \<open>
  One entry of the response, as the route builds it from a process: the start and end
  times are what \<open>toISOString\<close> returned, or absent.
\<close>

record processData =
  proc_id :: jsstring
  command :: jsstring
  status :: jsstring
  startTime :: "jsstring option"
  endTime :: "jsstring option"
  exitCode :: "int option"

text \<open>
  \<open>statusOrder\<close> is an object literal, so \<open>statusOrder[s]\<close> finds the four entries of
  the table and, for a name that every object inherits, the inherited member; anything
  else is undefined and becomes 99. An inherited member is a function or an object,
  told apart here by its name; subtracting with one gives NaN (\<open>None\<close>).
\<close>

definition statusOrder :: "(jsstring \<times> int) list" where
  "statusOrder =
     [(lit ''running'', 0), (lit ''starting'', 1), (lit ''completed'', 2), (lit ''failed'', 3)]"

definition objectPrototypeNames :: "jsstring list" where
  "objectPrototypeNames =
     [lit ''constructor'', lit ''__defineGetter__'', lit ''__defineSetter__'',
      lit ''hasOwnProperty'', lit ''__lookupGetter__'', lit ''__lookupSetter__'',
      lit ''isPrototypeOf'', lit ''propertyIsEnumerable'', lit ''toString'',
      lit ''valueOf'', lit ''__proto__'', lit ''toLocaleString'']"

datatype member = Number int | Inherited jsstring

definition statusRank :: "jsstring \<Rightarrow> member" where
  "statusRank s =
     (case map_of statusOrder s of
        Some n \<Rightarrow> Number n
      | None \<Rightarrow> if s \<in> set objectPrototypeNames then Inherited s else Number 99)"

fun subtract :: "member \<Rightarrow> member \<Rightarrow> int option" where
  "subtract (Number a) (Number b) = Some (a - b)"
| "subtract (Number a) (Inherited n) = None"
| "subtract (Inherited m) b = None"

definition timeOf :: "processData \<Rightarrow> jsstring" where
  "timeOf a = (case startTime a of None \<Rightarrow> [] | Some t \<Rightarrow> if t = [] then [] else t)"

definition compareProcesses :: "processData \<Rightarrow> processData \<Rightarrow> int option" where
  "compareProcesses a b =
     (let statusA = statusRank (status a);
          statusB = statusRank (status b)
      in if statusA \<noteq> statusB then subtract statusA statusB
         else (let timeA = timeOf a; timeB = timeOf b
               in Some (String_localeCompare timeB timeA)))"

text \<open>
  \<open>Array.prototype.sort\<close> reads a comparison that returns NaN as 0, and is stable: where
  the comparison orders the entries consistently, an entry moves behind exactly those
  entries the comparison puts before it. (For a comparison that is not consistent the
  platform leaves the order open; the theorem below is about lists on which it is.)
\<close>

definition SortCompare :: "('a \<Rightarrow> 'a \<Rightarrow> int option) \<Rightarrow> 'a \<Rightarrow> 'a \<Rightarrow> int" where
  "SortCompare cmp x y = (case cmp x y of None \<Rightarrow> 0 | Some v \<Rightarrow> v)"

fun sort_insert :: "('a \<Rightarrow> 'a \<Rightarrow> int option) \<Rightarrow> 'a \<Rightarrow> 'a list \<Rightarrow> 'a list" where
  "sort_insert cmp x [] = [x]"
| "sort_insert cmp x (y # ys) =
     (if SortCompare cmp x y \<le> 0 then x # y # ys else y # sort_insert cmp x ys)"

definition Array_sort :: "('a \<Rightarrow> 'a \<Rightarrow> int option) \<Rightarrow> 'a list \<Rightarrow> 'a list" where
  "Array_sort cmp xs = foldr (sort_insert cmp) xs []"

definition processes_response :: "processData list \<Rightarrow> nat \<times> processData list" where
  "processes_response ps = (length ps, Array_sort compareProcesses ps)"

text \<open>
  The timestamps \<open>toISOString\<close> returns for the years 0 to 9999: 24 characters,
  digits but for the punctuation at fixed places, as in \<open>2026-01-02T03:04:05.678Z\<close>.
  On these, and on the empty string, the collation of \<open>localeCompare\<close> and the
  comparison of code units agree.
\<close>

definition isoShape :: "code_unit list" where
  "isoShape =
     [0, 0, 0, 0, 0x2D, 0, 0, 0x2D, 0, 0, 0x54, 0, 0, 0x3A, 0, 0, 0x3A, 0, 0, 0x2E,
      0, 0, 0, 0x5A]"

definition isoTimestamp :: "jsstring \<Rightarrow> bool" where
  "isoTimestamp t \<longleftrightarrow>
     list_all2 (\<lambda>c k. if k = 0 then 0x30 \<le> c \<and> c \<le> 0x39 else c = k) t isoShape"


section \<open>A platform for examples\<close>

text \<open>
  A platform for the examples below, none of which holds a number or is nested deeply:
  a number is kept as its token, and counts as true when a digit other than 0 stands
  before its exponent; \<open>JSON.stringify\<close> returns on values nested up to 1000 deep.
\<close>

fun depth :: "'n json \<Rightarrow> nat" where
  "depth (JArray vs) = Suc (fold max (map depth vs) 0)"
| "depth (JObject ps) = Suc (fold max (map (\<lambda>(k, v). depth v) ps) 0)"
| "depth JNull = 0"
| "depth (JBool b) = 0"
| "depth (JNumber x) = 0"
| "depth (JString s) = 0"

definition lexemeNumbers :: "jsstring platform" where
  "lexemeNumbers =
     \<lparr>StringToNumber = (\<lambda>lexeme. lexeme),
      NumberToString = (\<lambda>x. x),
      NumberToBoolean = (\<lambda>x. \<exists>c\<in>set (takeWhile (\<lambda>c. c \<noteq> 0x65 \<and> c \<noteq> 0x45) x).
                               0x31 \<le> c \<and> c \<le> 0x39),
      StringifyReturns = (\<lambda>v. depth v \<le> 1000)\<rparr>"


text \<open>Five entries of a process list: two statuses of the table, and one outside it.\<close>

definition exampleProcesses :: "processData list" where
  "exampleProcesses =
     [\<lparr>proc_id = lit ''a'', command = [], status = lit ''failed'',
        startTime = Some (lit ''2026-01-02T00:00:00.000Z''), endTime = None,
        exitCode = Some 1\<rparr>,
      \<lparr>proc_id = lit ''b'', command = [], status = lit ''running'',
        startTime = Some (lit ''2026-01-01T00:00:00.000Z''), endTime = None,
        exitCode = None\<rparr>,
      \<lparr>proc_id = lit ''c'', command = [], status = lit ''killed'',
        startTime = None, endTime = None, exitCode = None\<rparr>,
      \<lparr>proc_id = lit ''d'', command = [], status = lit ''running'',
        startTime = Some (lit ''2026-01-03T00:00:00.000Z''), endTime = None,
        exitCode = None\<rparr>,
      \<lparr>proc_id = lit ''e'', command = [], status = lit ''running'',
        startTime = None, endTime = None, exitCode = None\<rparr>]"


section \<open>The error translator\<close>

lemma startsWith_iff: "startsWith s pat \<longleftrightarrow> prefix pat s"
  by (induction s pat rule: startsWith.induct) auto

lemma String_includes_iff_sublist: "String_includes s pat \<longleftrightarrow> sublist pat s"
  by (induction s) (simp_all add: startsWith_iff sublist_Cons_right)

lemma String_includes_iff: "String_includes s pat \<longleftrightarrow> (\<exists>u v. s = u @ pat @ v)"
  by (simp add: String_includes_iff_sublist sublist_def)

text \<open>
  Claim C2. For every message and host, \<open>transformErrorMessage\<close> returns a value (it is
  a total function): the token template around the host when the message contains
  "gateway token missing" or "gateway token mismatch" as a substring, otherwise the
  pairing template when it contains "pairing required", otherwise the message itself.
  The token phrases are tried first.
\<close>

theorem transformErrorMessage_table:
  "transformErrorMessage m h =
     (if (\<exists>u v. m = u @ lit ''gateway token missing'' @ v)
         \<or> (\<exists>u v. m = u @ lit ''gateway token mismatch'' @ v)
      then lit ''Invalid or missing token. Visit https://'' @ h
             @ lit ''?token={REPLACE_WITH_YOUR_TOKEN}''
      else if (\<exists>u v. m = u @ lit ''pairing required'' @ v)
      then lit ''Pairing required. Visit https://'' @ h @ lit ''/_admin/''
      else m)"
  unfolding transformErrorMessage_def String_includes_iff by (rule refl)


section \<open>The fuel of the JSON parser\<close>

text \<open>
  A parse that ends within its fuel ends the same way with more, and the fuel
  \<open>JSON.parse\<close> starts with is enough for every text. So \<open>JSON_parse\<close> is \<open>None\<close> only
  where the text is not JSON, and it can be computed with any fuel that suffices.
\<close>

lemma consChar_Some:
  "consChar c r = Some (str, rest) \<longleftrightarrow> (\<exists>str'. r = Some (str', rest) \<and> str = c # str')"
  by (auto simp add: consChar_def split: option.splits)

lemma parseStringChars_rest:
  "parseStringChars s = Some (str, rest) \<Longrightarrow> length rest < length s"
proof (induction s arbitrary: str rule: parseStringChars.induct)
  case 1
  then show ?case by simp
next
  case (2 c cs)
  then show ?case
    by (fastforce simp add: consChar_Some split: if_splits list.splits option.splits)
qed

lemma scanDigits_rest: "scanDigits s = Some (ds, rest) \<Longrightarrow> length rest \<le> length s"
  by (auto simp add: scanDigits_def length_dropWhile_le split: if_splits)

lemma scanInt_rest: "scanInt s = Some (ds, rest) \<Longrightarrow> length rest \<le> length s"
  by (auto simp add: scanInt_def split: list.splits if_splits dest: scanDigits_rest)

lemma scanFraction_rest: "scanFraction s = Some (ds, rest) \<Longrightarrow> length rest \<le> length s"
  by (auto simp add: scanFraction_def split: list.splits if_splits option.splits
      dest: scanDigits_rest)

lemma scanSign_rest: "length (snd (scanSign s)) \<le> length s"
  by (auto simp add: scanSign_def split: list.splits)

lemma scanExponent_rest:
  assumes "scanExponent s = Some (ds, rest)"
  shows "length rest \<le> length s"
proof (cases s)
  case Nil
  with assms show ?thesis by (simp add: scanExponent_def)
next
  case (Cons c cs)
  show ?thesis
  proof (cases "c = 0x65 \<or> c = 0x45")
    case False
    with assms Cons show ?thesis by (simp add: scanExponent_def)
  next
    case True
    with assms Cons obtain x where "scanDigits (snd (scanSign cs)) = Some (x, rest)"
      by (auto simp add: scanExponent_def split: option.splits)
    then have "length rest \<le> length (snd (scanSign cs))"
      by (rule scanDigits_rest)
    also have "\<dots> \<le> length cs"
      by (rule scanSign_rest)
    finally show ?thesis using Cons by simp
  qed
qed

lemma scanNumber_rest: "scanNumber s = Some (lexeme, rest) \<Longrightarrow> length rest \<le> length s"
  by (fastforce simp add: scanNumber_def split: list.splits if_splits option.splits prod.splits
      dest!: scanInt_rest scanFraction_rest scanExponent_rest)

lemma parseAtom_rest: "parseAtom num s = Parsed v rest \<Longrightarrow> length rest \<le> length s"
  by (fastforce simp add: parseAtom_def split: list.splits if_splits option.splits
      dest!: parseStringChars_rest scanNumber_rest)

lemma length_skipWhiteSpace: "length (skipWhiteSpace s) \<le> length s"
  by (simp add: skipWhiteSpace_def length_dropWhile_le)

lemma skipWhiteSpace_Cons:
  "skipWhiteSpace s = d # ds \<Longrightarrow>
     length ds < length s \<and> length (skipWhiteSpace ds) < length s"
  using length_skipWhiteSpace [of s] length_skipWhiteSpace [of ds] by simp

lemma parseKey_rest: "parseKey s = Some (key, rest) \<Longrightarrow> length rest < length s"
proof -
  assume a: "parseKey s = Some (key, rest)"
  then obtain c cs r d ds where s: "s = c # cs" and p: "parseStringChars cs = Some (key, r)"
    and d: "skipWhiteSpace r = d # ds" and rest: "rest = skipWhiteSpace ds"
    by (auto simp add: parseKey_def split: list.splits if_splits option.splits)
  have "length rest < length r"
    using skipWhiteSpace_Cons [OF d] rest by simp
  moreover have "length r < length cs"
    using p by (rule parseStringChars_rest)
  ultimately show ?thesis using s by simp
qed

lemma parse_rest:
  "(\<forall>v rest. parseValue num n s = Parsed v rest \<longrightarrow> length rest \<le> length s)
   \<and> (\<forall>acc v rest. parseElements num n s acc = Parsed v rest \<longrightarrow> length rest \<le> length s)
   \<and> (\<forall>acc v rest. parseMembers num n s acc = Parsed v rest \<longrightarrow> length rest \<le> length s)"
proof (induction n arbitrary: s)
  case 0
  show ?case by simp
next
  case (Suc n)
  have V: "\<And>s v rest. parseValue num n s = Parsed v rest \<Longrightarrow> length rest \<le> length s"
    and E: "\<And>s acc v rest. parseElements num n s acc = Parsed v rest \<Longrightarrow> length rest \<le> length s"
    and M: "\<And>s acc v rest. parseMembers num n s acc = Parsed v rest \<Longrightarrow> length rest \<le> length s"
    using Suc.IH by blast+
  have "length rest \<le> length s" if "parseValue num (Suc n) s = Parsed v rest" for v rest
    using that
    by (auto split: list.splits if_splits
        dest!: parseAtom_rest E M skipWhiteSpace_Cons)
  moreover have "length rest \<le> length s"
    if "parseElements num (Suc n) s acc = Parsed v rest" for acc v rest
    using that
    by (auto split: parsed.splits list.splits if_splits
        dest!: V E skipWhiteSpace_Cons)
  moreover have "length rest \<le> length s"
    if "parseMembers num (Suc n) s acc = Parsed v rest" for acc v rest
    using that
    by (auto split: parsed.splits list.splits if_splits option.splits
        dest!: V M parseKey_rest skipWhiteSpace_Cons)
  ultimately show ?case by blast
qed

lemma parseAtom_fuel: "parseAtom num s \<noteq> OutOfFuel"
  by (simp add: parseAtom_def split: list.splits option.splits)

lemma parseValue_mono_step:
  assumes E: "\<And>s acc. parseElements num n s acc \<noteq> OutOfFuel \<Longrightarrow>
             parseElements num (n + k) s acc = parseElements num n s acc"
    and M: "\<And>s acc. parseMembers num n s acc \<noteq> OutOfFuel \<Longrightarrow>
             parseMembers num (n + k) s acc = parseMembers num n s acc"
    and that: "parseValue num (Suc n) s \<noteq> OutOfFuel"
  shows "parseValue num (Suc (n + k)) s = parseValue num (Suc n) s"
proof (cases s)
  case Nil
  then show ?thesis by simp
next
  case (Cons c cs)
  show ?thesis
  proof (cases "skipWhiteSpace cs")
    case Nil
    with Cons show ?thesis by simp
  next
    case d: (Cons d ds)
    consider (a) "c = 0x5B" "d = 0x5D" | (b) "c = 0x5B" "d \<noteq> 0x5D"
      | (c) "c \<noteq> 0x5B" "c = 0x7B" "d = 0x7D" | (e) "c \<noteq> 0x5B" "c = 0x7B" "d \<noteq> 0x7D"
      | (f) "c \<noteq> 0x5B" "c \<noteq> 0x7B"
      by blast
    then show ?thesis
    proof cases
      case a
      then show ?thesis using Cons d by simp
    next
      case b
      with that Cons d have "parseElements num n (d # ds) [] \<noteq> OutOfFuel" by simp
      then show ?thesis using b Cons d by (simp add: E)
    next
      case c
      then show ?thesis using Cons d by simp
    next
      case e
      with that Cons d have "parseMembers num n (d # ds) [] \<noteq> OutOfFuel" by simp
      then show ?thesis using e Cons d by (simp add: M)
    next
      case f
      then show ?thesis using Cons by simp
    qed
  qed
qed


lemma parseElements_mono_step:
  assumes V: "\<And>s. parseValue num n s \<noteq> OutOfFuel \<Longrightarrow>
             parseValue num (n + k) s = parseValue num n s"
    and E: "\<And>s acc. parseElements num n s acc \<noteq> OutOfFuel \<Longrightarrow>
             parseElements num (n + k) s acc = parseElements num n s acc"
    and that: "parseElements num (Suc n) s acc \<noteq> OutOfFuel"
  shows "parseElements num (Suc (n + k)) s acc = parseElements num (Suc n) s acc"
proof (cases "parseValue num n s")
  case OutOfFuel
  with that show ?thesis by simp
next
  case SyntaxError
  with V [of s] show ?thesis by simp
next
  case (Parsed v rest)
  with V [of s] have v: "parseValue num (n + k) s = Parsed v rest" by simp
  show ?thesis
  proof (cases "skipWhiteSpace rest")
    case Nil
    with Parsed v show ?thesis by simp
  next
    case (Cons d ds)
    show ?thesis
    proof (cases "d = 0x2C")
      case True
      with that Parsed Cons
      have "parseElements num n (skipWhiteSpace ds) (acc @ [v]) \<noteq> OutOfFuel" by simp
      then show ?thesis using True Parsed v Cons by (simp add: E)
    next
      case False
      then show ?thesis using Parsed v Cons by simp
    qed
  qed
qed

lemma parseMembers_mono_step:
  assumes V: "\<And>s. parseValue num n s \<noteq> OutOfFuel \<Longrightarrow>
             parseValue num (n + k) s = parseValue num n s"
    and M: "\<And>s acc. parseMembers num n s acc \<noteq> OutOfFuel \<Longrightarrow>
             parseMembers num (n + k) s acc = parseMembers num n s acc"
    and that: "parseMembers num (Suc n) s acc \<noteq> OutOfFuel"
  shows "parseMembers num (Suc (n + k)) s acc = parseMembers num (Suc n) s acc"
proof (cases "parseKey s")
  case None
  then show ?thesis by simp
next
  case (Some a)
  obtain key s' where a: "a = (key, s')" by (cases a)
  show ?thesis
  proof (cases "parseValue num n s'")
    case OutOfFuel
    with that Some a show ?thesis by simp
  next
    case SyntaxError
    with V [of s'] Some a show ?thesis by simp
  next
    case (Parsed v rest)
    with V [of s'] have v: "parseValue num (n + k) s' = Parsed v rest" by simp
    show ?thesis
    proof (cases "skipWhiteSpace rest")
      case Nil
      with Parsed v Some a show ?thesis by simp
    next
      case (Cons d ds)
      show ?thesis
      proof (cases "d = 0x2C")
        case True
        with that Parsed Cons Some a
        have "parseMembers num n (skipWhiteSpace ds) (putProperty acc key v) \<noteq> OutOfFuel"
          by simp
        then show ?thesis using True Parsed v Cons Some a by (simp add: M)
      next
        case False
        then show ?thesis using Parsed v Cons Some a by simp
      qed
    qed
  qed
qed

lemma fuel_mono:
  "(parseValue num n s \<noteq> OutOfFuel \<longrightarrow> parseValue num (n + k) s = parseValue num n s)
   \<and> (\<forall>acc. parseElements num n s acc \<noteq> OutOfFuel \<longrightarrow>
          parseElements num (n + k) s acc = parseElements num n s acc)
   \<and> (\<forall>acc. parseMembers num n s acc \<noteq> OutOfFuel \<longrightarrow>
          parseMembers num (n + k) s acc = parseMembers num n s acc)"
proof (induction n arbitrary: s)
  case 0
  show ?case by simp
next
  case (Suc n)
  have V: "\<And>s. parseValue num n s \<noteq> OutOfFuel \<Longrightarrow>
             parseValue num (n + k) s = parseValue num n s"
    and E: "\<And>s acc. parseElements num n s acc \<noteq> OutOfFuel \<Longrightarrow>
             parseElements num (n + k) s acc = parseElements num n s acc"
    and M: "\<And>s acc. parseMembers num n s acc \<noteq> OutOfFuel \<Longrightarrow>
             parseMembers num (n + k) s acc = parseMembers num n s acc"
    using Suc.IH by blast+
  show ?case
    using parseValue_mono_step [of num n k s, OF E M]
      parseElements_mono_step [of num n k s, OF V E]
      parseMembers_mono_step [of num n k s, OF V M]
    by (simp only: add_Suc) blast
qed

lemma parseValue_enough_step:
  assumes E: "\<And>s acc. 2 * length s + 1 < n \<Longrightarrow> parseElements num n s acc \<noteq> OutOfFuel"
    and M: "\<And>s acc. 2 * length s + 1 < n \<Longrightarrow> parseMembers num n s acc \<noteq> OutOfFuel"
    and n: "2 * length s < Suc n"
  shows "parseValue num (Suc n) s \<noteq> OutOfFuel"
proof (cases s)
  case Nil
  then show ?thesis by simp
next
  case (Cons c cs)
  show ?thesis
  proof (cases "skipWhiteSpace cs")
    case Nil
    with Cons show ?thesis by (simp add: parseAtom_fuel)
  next
    case d: (Cons d ds)
    have "length (d # ds) \<le> length cs"
      using length_skipWhiteSpace [of cs] d by simp
    with n Cons have "2 * length (d # ds) + 1 < n" by simp
    then have "parseElements num n (d # ds) [] \<noteq> OutOfFuel"
      and "parseMembers num n (d # ds) [] \<noteq> OutOfFuel"
      by (rule E, rule M)
    then show ?thesis using Cons d by (auto simp add: parseAtom_fuel)
  qed
qed

lemma parseElements_enough_step:
  assumes V: "\<And>s. 2 * length s < n \<Longrightarrow> parseValue num n s \<noteq> OutOfFuel"
    and E: "\<And>s acc. 2 * length s + 1 < n \<Longrightarrow> parseElements num n s acc \<noteq> OutOfFuel"
    and n: "2 * length s + 1 < Suc n"
  shows "parseElements num (Suc n) s acc \<noteq> OutOfFuel"
proof (cases "parseValue num n s")
  case OutOfFuel
  with V [of s] n show ?thesis by simp
next
  case SyntaxError
  then show ?thesis by simp
next
  case (Parsed v rest)
  then have r: "length rest \<le> length s"
    using parse_rest [of num n s] by blast
  show ?thesis
  proof (cases "skipWhiteSpace rest")
    case Nil
    with Parsed show ?thesis by simp
  next
    case (Cons d ds)
    have "2 * length (skipWhiteSpace ds) + 1 < n"
      using skipWhiteSpace_Cons [OF Cons] r n by simp
    then have "parseElements num n (skipWhiteSpace ds) (acc @ [v]) \<noteq> OutOfFuel"
      by (rule E)
    with Parsed Cons show ?thesis by simp
  qed
qed

lemma parseMembers_enough_step:
  assumes V: "\<And>s. 2 * length s < n \<Longrightarrow> parseValue num n s \<noteq> OutOfFuel"
    and M: "\<And>s acc. 2 * length s + 1 < n \<Longrightarrow> parseMembers num n s acc \<noteq> OutOfFuel"
    and n: "2 * length s + 1 < Suc n"
  shows "parseMembers num (Suc n) s acc \<noteq> OutOfFuel"
proof (cases "parseKey s")
  case None
  then show ?thesis by simp
next
  case (Some a)
  obtain key s' where a: "a = (key, s')" by (cases a)
  have s': "length s' < length s"
    using Some a parseKey_rest by blast
  show ?thesis
  proof (cases "parseValue num n s'")
    case OutOfFuel
    with V [of s'] n s' show ?thesis by simp
  next
    case SyntaxError
    with Some a show ?thesis by simp
  next
    case (Parsed v rest)
    then have r: "length rest \<le> length s'"
      using parse_rest [of num n s'] by blast
    show ?thesis
    proof (cases "skipWhiteSpace rest")
      case Nil
      with Parsed Some a show ?thesis by simp
    next
      case (Cons d ds)
      have "2 * length (skipWhiteSpace ds) + 1 < n"
        using skipWhiteSpace_Cons [OF Cons] r n s' by simp
      then have "parseMembers num n (skipWhiteSpace ds) (putProperty acc key v) \<noteq> OutOfFuel"
        by (rule M)
      with Parsed Cons Some a show ?thesis by simp
    qed
  qed
qed

lemma fuel_enough:
  "(2 * length s < n \<longrightarrow> parseValue num n s \<noteq> OutOfFuel)
   \<and> (\<forall>acc. 2 * length s + 1 < n \<longrightarrow> parseElements num n s acc \<noteq> OutOfFuel)
   \<and> (\<forall>acc. 2 * length s + 1 < n \<longrightarrow> parseMembers num n s acc \<noteq> OutOfFuel)"
proof (induction n arbitrary: s)
  case 0
  show ?case by simp
next
  case (Suc n)
  have V: "\<And>s. 2 * length s < n \<Longrightarrow> parseValue num n s \<noteq> OutOfFuel"
    and E: "\<And>s acc. 2 * length s + 1 < n \<Longrightarrow> parseElements num n s acc \<noteq> OutOfFuel"
    and M: "\<And>s acc. 2 * length s + 1 < n \<Longrightarrow> parseMembers num n s acc \<noteq> OutOfFuel"
    using Suc.IH by blast+
  show ?case
    using parseValue_enough_step [of n num s, OF E M]
      parseElements_enough_step [of n num s, OF V E]
      parseMembers_enough_step [of n num s, OF V M]
    by blast
qed

lemma parseValue_fuel:
  assumes "parseValue num n s \<noteq> OutOfFuel" and "parseValue num m s \<noteq> OutOfFuel"
  shows "parseValue num n s = parseValue num m s"
proof -
  have "parseValue num (n + m) s = parseValue num n s"
    using fuel_mono [of num n s m] assms(1) by blast
  moreover have "parseValue num (m + n) s = parseValue num m s"
    using fuel_mono [of num m s n] assms(2) by blast
  ultimately show ?thesis by (simp add: add.commute)
qed

lemma JSON_parse_never_OutOfFuel:
  "parseValue num (Suc (2 * length str)) (skipWhiteSpace str) \<noteq> OutOfFuel"
proof -
  have "2 * length (skipWhiteSpace str) < Suc (2 * length str)"
    using length_skipWhiteSpace [of str] by simp
  then show ?thesis
    using fuel_enough [of "skipWhiteSpace str" "Suc (2 * length str)" num] by blast
qed

lemma JSON_parse_fuel:
  assumes "parseValue (StringToNumber N) n (skipWhiteSpace str) = r"
    and "r \<noteq> OutOfFuel"
  shows "JSON_parse N str =
    (case r of
       Parsed v rest \<Rightarrow> if skipWhiteSpace rest = [] then Some v else None
     | SyntaxError \<Rightarrow> None
     | OutOfFuel \<Rightarrow> None)"
proof -
  have "parseValue (StringToNumber N) (Suc (2 * length str)) (skipWhiteSpace str) = r"
    using parseValue_fuel [OF JSON_parse_never_OutOfFuel, of "StringToNumber N" n str] assms
    by simp
  then show ?thesis by (simp add: JSON_parse_def)
qed


section \<open>The message listener of the gateway's socket\<close>

lemma readErrorMessage_field:
  "readErrorMessage parsed =
     (if parsed = JNull then None else Some (error_message_field parsed))"
  by (simp add: readErrorMessage_def error_message_field_def getProperty_def
      split: json.splits option.splits)

lemma intercept_unchanged:
  assumes "JSON_parse N frame = None
     \<or> (\<exists>parsed. JSON_parse N frame = Some parsed
           \<and> \<not> ToBoolean N (error_message_field parsed))"
  shows "intercept N host frame = frame"
  using assms
  by (auto simp add: intercept_def readErrorMessage_field)

text \<open>
  A message that counts as true and is neither a string nor an array has no \<open>includes\<close>:
  the call throws, the listener catches, and the frame goes on as it came.
\<close>

lemma intercept_not_a_string:
  assumes "JSON_parse N frame = Some parsed"
    and "error_message_field parsed = Some m"
    and "\<forall>s. m \<noteq> JString s" and "\<forall>vs. m \<noteq> JArray vs"
  shows "intercept N host frame = frame"
  using assms
  by (cases m) (auto simp add: intercept_def readErrorMessage_field)

lemma containerWs_message_binary:
  "containerWs_message N host rs (Binary b) =
     (if rs = OPEN then [SendCall ServerWs (Binary b)] else [])"
  by (simp add: containerWs_message_def)

lemma parse_not_json:
  "JSON_parse lexemeNumbers (lit ''not json'') = None"
proof -
  have "parseValue (StringToNumber lexemeNumbers) (Suc 0) (skipWhiteSpace (lit ''not json''))
          = SyntaxError"
    by (simp add: skipWhiteSpace_def isWhiteSpace_def lit_def parseAtom_def scanNumber_def
        scanInt_def scanDigits_def isDigit_def)
  from JSON_parse_fuel [OF this] show ?thesis by simp
qed

lemma parse_type_ok:
  \<open>JSON_parse lexemeNumbers (lit ''{"type":"ok"}'') =
     Some (JObject [(lit ''type'', JString (lit ''ok''))])\<close>
proof -
  have \<open>parseValue (StringToNumber lexemeNumbers) (Suc (Suc (Suc 0)))
          (skipWhiteSpace (lit ''{"type":"ok"}''))
          = Parsed (JObject [(lit ''type'', JString (lit ''ok''))]) []\<close>
    by (simp add: skipWhiteSpace_def isWhiteSpace_def lit_def parseAtom_def parseKey_def
        putProperty_def arrayIndex_def isDigit_def consChar_def)
  from JSON_parse_fuel [OF this] show ?thesis by (simp add: skipWhiteSpace_def)
qed

text \<open>
  Claim C4. A text frame from the gateway that is not JSON, or that is JSON without an
  \<open>error.message\<close> that counts as true, leaves the listener as it came: when the client's
  socket is open the listener sends exactly the frame's text, and otherwise it sends
  nothing. The listener returns its calls in every case: a frame that does not parse
  raises no error.
\<close>

theorem frame_without_error_message_unchanged:
  assumes "JSON_parse N frame = None
     \<or> (\<exists>parsed. JSON_parse N frame = Some parsed
           \<and> \<not> ToBoolean N (error_message_field parsed))"
  shows "containerWs_message N host rs (Text frame) =
     (if rs = OPEN then [SendCall ServerWs (Text frame)] else [])"
  using intercept_unchanged [OF assms] by (simp add: containerWs_message_def)

theorem frame_without_error_message_unchanged_witness:
  \<open>JSON_parse lexemeNumbers (lit ''not json'') = None
   \<and> containerWs_message lexemeNumbers (lit ''example.com'') OPEN (Text (lit ''not json''))
       = [SendCall ServerWs (Text (lit ''not json''))]
   \<and> JSON_parse lexemeNumbers (lit ''{"type":"ok"}'')
       = Some (JObject [(lit ''type'', JString (lit ''ok''))])
   \<and> containerWs_message lexemeNumbers (lit ''example.com'') OPEN
         (Text (lit ''{"type":"ok"}''))
       = [SendCall ServerWs (Text (lit ''{"type":"ok"}''))]\<close>
proof -
  have h1: \<open>JSON_parse lexemeNumbers (lit ''not json'') = None
     \<or> (\<exists>parsed. JSON_parse lexemeNumbers (lit ''not json'') = Some parsed
           \<and> \<not> ToBoolean lexemeNumbers (error_message_field parsed))\<close>
    using parse_not_json by simp
  have h2: \<open>JSON_parse lexemeNumbers (lit ''{"type":"ok"}'') = None
     \<or> (\<exists>parsed. JSON_parse lexemeNumbers (lit ''{"type":"ok"}'') = Some parsed
           \<and> \<not> ToBoolean lexemeNumbers (error_message_field parsed))\<close>
    using parse_type_ok by (simp add: error_message_field_def lit_def)
  show ?thesis
    using frame_without_error_message_unchanged [OF h1, of "lit ''example.com''" OPEN]
      frame_without_error_message_unchanged [OF h2, of "lit ''example.com''" OPEN]
      parse_not_json parse_type_ok
    by simp
qed

lemma map_of_split:
  "map_of ps k = Some v \<Longrightarrow> \<exists>pre post. ps = pre @ (k, v) # post \<and> k \<notin> fst ` set pre"
proof (induction ps)
  case Nil
  then show ?case by simp
next
  case (Cons p ps)
  show ?case
  proof (cases "fst p = k")
    case True
    with Cons.prems have "p # ps = [] @ (k, v) # ps" by (cases p) simp
    then show ?thesis by fastforce
  next
    case False
    with Cons obtain pre post where "ps = pre @ (k, v) # post" and "k \<notin> fst ` set pre"
      by (cases p) auto
    with False have "p # ps = (p # pre) @ (k, v) # post" and "k \<notin> fst ` set (p # pre)"
      by auto
    then show ?thesis by blast
  qed
qed

lemma replaceProperty_split:
  "k \<notin> fst ` set pre \<Longrightarrow> replaceProperty k v' (pre @ (k, v) # post) = pre @ (k, v') # post"
  by (induction pre) auto

lemma putProperty_split:
  assumes "k \<notin> fst ` set pre"
  shows "putProperty (pre @ (k, v) # post) k v' = pre @ (k, v') # post"
proof -
  have "map_of (pre @ (k, v) # post) k = Some v"
    using assms by (induction pre) auto
  then show ?thesis
    using assms by (simp add: putProperty_def replaceProperty_split)
qed

lemma intercept_rewrites:
  assumes "JSON_parse N frame = Some parsed"
    and "parsed = JObject (pre @ (lit ''error'',
                   JObject (pre' @ (lit ''message'', JString m) # post')) # post)"
    and "lit ''error'' \<notin> fst ` set pre"
    and "lit ''message'' \<notin> fst ` set pre'"
    and "m \<noteq> []"
    and "rewritten = JObject (pre @ (lit ''error'',
         JObject (pre' @ (lit ''message'', JString (transformErrorMessage m host)) # post'))
         # post)"
  shows "intercept N host frame =
     (if StringifyReturns N rewritten then JSON_stringify N rewritten else frame)"
proof -
  have e: "map_of (pre @ (lit ''error'',
             JObject (pre' @ (lit ''message'', JString m) # post')) # post) (lit ''error'')
           = Some (JObject (pre' @ (lit ''message'', JString m) # post'))"
    using assms(3) by (induction pre) auto
  have m: "map_of (pre' @ (lit ''message'', JString m) # post') (lit ''message'')
           = Some (JString m)"
    using assms(4) by (induction pre') auto
  have a: "assignErrorMessage parsed (JString (transformErrorMessage m host)) = rewritten"
    using assms(3,4) e
    by (simp add: assignErrorMessage_def getProperty_def setProperty_def assms(2,6)
        putProperty_split)
  have f: "error_message_field parsed = Some (JString m)"
    using e m by (simp add: error_message_field_def assms(2))
  have r: "readErrorMessage parsed = Some (Some (JString m))"
    using f by (simp add: readErrorMessage_field assms(2))
  show ?thesis
    by (simp add: intercept_def assms(1) r assms(5) a)
qed

text \<open>The example platform serialises the values of the examples.\<close>

lemma lexemeNumbers_returns:
  "StringifyReturns lexemeNumbers
     (JObject [(lit ''error'', JObject [(lit ''message'', JString s)])])"
  by (simp add: lexemeNumbers_def)

lemma parse_token_missing:
  \<open>JSON_parse lexemeNumbers (lit ''{"error":{"message":"gateway token missing"}}'') =
     Some (JObject [(lit ''error'',
             JObject [(lit ''message'', JString (lit ''gateway token missing''))])])\<close>
proof -
  have \<open>parseValue (StringToNumber lexemeNumbers) (Suc (Suc (Suc (Suc (Suc 0)))))
          (skipWhiteSpace (lit ''{"error":{"message":"gateway token missing"}}''))
          = Parsed (JObject [(lit ''error'',
             JObject [(lit ''message'', JString (lit ''gateway token missing''))])]) []\<close>
    by (simp add: skipWhiteSpace_def isWhiteSpace_def lit_def parseAtom_def parseKey_def
        putProperty_def arrayIndex_def isDigit_def consChar_def)
  from JSON_parse_fuel [OF this] show ?thesis by (simp add: skipWhiteSpace_def)
qed

lemma parse_empty_message:
  \<open>JSON_parse lexemeNumbers (lit ''{"error":{"message":""} }'') =
     Some (JObject [(lit ''error'', JObject [(lit ''message'', JString [])])])\<close>
proof -
  have \<open>parseValue (StringToNumber lexemeNumbers) (Suc (Suc (Suc (Suc (Suc 0)))))
          (skipWhiteSpace (lit ''{"error":{"message":""} }''))
          = Parsed (JObject [(lit ''error'', JObject [(lit ''message'', JString [])])]) []\<close>
    by (simp add: skipWhiteSpace_def isWhiteSpace_def lit_def parseAtom_def parseKey_def
        putProperty_def arrayIndex_def isDigit_def consChar_def)
  from JSON_parse_fuel [OF this] show ?thesis by (simp add: skipWhiteSpace_def)
qed

lemma stringify_error_message:
  \<open>\<forall>c\<in>set m. 0x20 \<le> c \<and> c < 0x80 \<and> c \<noteq> 0x22 \<and> c \<noteq> 0x5C \<Longrightarrow>
   JSON_stringify N (JObject [(lit ''error'', JObject [(lit ''message'', JString m)])])
     = lit ''{"error":{"message":"'' @ m @ lit ''"}}''\<close>
proof -
  assume a: "\<forall>c\<in>set m. 0x20 \<le> c \<and> c < 0x80 \<and> c \<noteq> 0x22 \<and> c \<noteq> 0x5C"
  have "quoteChars m = m"
    using a
  proof (induction m)
    case Nil
    show ?case by simp
  next
    case (Cons c cs)
    then have "c < 0x80" and "0x20 \<le> c" and "c \<noteq> 0x22" and "c \<noteq> 0x5C"
      by simp_all
    then have "\<not> isLeadingSurrogate c" and "\<not> isTrailingSurrogate c" and "quoteUnit c = [c]"
      unfolding isLeadingSurrogate_def isTrailingSurrogate_def quoteUnit_def
      by (auto simp add: word_le_nat_alt word_less_nat_alt)
    with Cons show ?case by simp
  qed
  then show ?thesis
    by (simp add: lit_def QuoteJSONString_def quoteUnit_def isLeadingSurrogate_def
        isTrailingSurrogate_def)
qed

text \<open>
  The example of the specification: the frame \<open>{"error":{"message":"gateway token missing"}}\<close>
  on host example.com.
\<close>

lemma containerWs_message_token_missing:
  \<open>containerWs_message lexemeNumbers (lit ''example.com'') OPEN
     (Text (lit ''{"error":{"message":"gateway token missing"}}'')) =
   [SendCall ServerWs (Text (lit ''{"error":{"message":"Invalid or missing token. Visit https://example.com?token={REPLACE_WITH_YOUR_TOKEN}"}}''))]\<close>
proof -
  have t: "transformErrorMessage (lit ''gateway token missing'') (lit ''example.com'')
    = lit ''Invalid or missing token. Visit https://example.com?token={REPLACE_WITH_YOUR_TOKEN}''"
    by (simp add: transformErrorMessage_def lit_def)
  let ?v = "JObject ([] @ (lit ''error'',
         JObject ([] @ (lit ''message'', JString (transformErrorMessage
            (lit ''gateway token missing'') (lit ''example.com''))) # [])) # [])
         :: jsstring json"
  have \<open>intercept lexemeNumbers (lit ''example.com'')
      (lit ''{"error":{"message":"gateway token missing"}}'')
    = (if StringifyReturns lexemeNumbers ?v then JSON_stringify lexemeNumbers ?v
       else lit ''{"error":{"message":"gateway token missing"}}'')\<close>
    by (rule intercept_rewrites
          [where pre = "[]" and post = "[]" and pre' = "[]" and post' = "[]"
             and m = "lit ''gateway token missing''", OF parse_token_missing])
       (simp_all add: lit_def)
  also have \<open>\<dots> = JSON_stringify lexemeNumbers ?v\<close>
    using lexemeNumbers_returns by simp
  also have \<open>\<dots> = lit ''{"error":{"message":"'' @
      lit ''Invalid or missing token. Visit https://example.com?token={REPLACE_WITH_YOUR_TOKEN}''
      @ lit ''"}}''\<close>
    unfolding t append_Nil by (rule stringify_error_message) (simp add: lit_def)
  finally show ?thesis
    by (simp add: containerWs_message_def lit_def)
qed

text \<open>
  Claim C5, amended. A text frame from the gateway that parses as JSON with an
  \<open>error.message\<close> that is a non-empty string is forwarded, where \<open>JSON.stringify\<close>
  returns, as the serialisation of the parsed value in which \<open>error.message\<close> holds the
  translation of the message for the request's host; every other property of the value
  and of its \<open>error\<close> object, before and after, stands where it stood with the value it
  had. Where \<open>JSON.stringify\<close> throws, the listener forwards the text of the frame as it
  came. (So it does with the empty string as message.)
\<close>

theorem error_message_rewritten:
  assumes "JSON_parse N frame = Some parsed"
    and "error_message_field parsed = Some (JString m)"
    and "m \<noteq> []"
  shows "\<exists>pre post pre' post'.
    parsed = JObject (pre @ (lit ''error'',
                 JObject (pre' @ (lit ''message'', JString m) # post')) # post)
    \<and> (let rewritten =
             JObject (pre @ (lit ''error'',
               JObject (pre' @ (lit ''message'', JString (transformErrorMessage m host))
                        # post')) # post)
       in containerWs_message N host rs (Text frame) =
            (if rs = OPEN
             then [SendCall ServerWs
                     (Text (if StringifyReturns N rewritten
                            then JSON_stringify N rewritten
                            else frame))]
             else []))"
proof -
  from assms(2) obtain ps es where parsed: "parsed = JObject ps"
    and ps: "map_of ps (lit ''error'') = Some (JObject es)"
    and es: "map_of es (lit ''message'') = Some (JString m)"
    by (auto simp add: error_message_field_def split: json.splits option.splits)
  from map_of_split [OF ps] obtain pre post
    where ps': "ps = pre @ (lit ''error'', JObject es) # post"
      and pre: "lit ''error'' \<notin> fst ` set pre"
    by blast
  from map_of_split [OF es] obtain pre' post'
    where es': "es = pre' @ (lit ''message'', JString m) # post'"
      and pre': "lit ''message'' \<notin> fst ` set pre'"
    by blast
  define rewritten where "rewritten =
    JObject (pre @ (lit ''error'',
       JObject (pre' @ (lit ''message'', JString (transformErrorMessage m host)) # post'))
       # post)"
  have p: "parsed = JObject (pre @ (lit ''error'',
                 JObject (pre' @ (lit ''message'', JString m) # post')) # post)"
    by (simp add: parsed ps' es')
  have "intercept N host frame =
      (if StringifyReturns N rewritten then JSON_stringify N rewritten else frame)"
    using assms(1) p pre pre' assms(3) rewritten_def by (rule intercept_rewrites)
  then have "containerWs_message N host rs (Text frame) =
            (if rs = OPEN
             then [SendCall ServerWs
                     (Text (if StringifyReturns N rewritten
                            then JSON_stringify N rewritten
                            else frame))]
             else [])"
    by (simp add: containerWs_message_def)
  with p show ?thesis
    unfolding rewritten_def Let_def by blast
qed

theorem error_message_rewritten_witness:
  \<open>StringifyReturns lexemeNumbers
     (JObject [(lit ''error'', JObject [(lit ''message'',
        JString (transformErrorMessage (lit ''gateway token missing'')
                   (lit ''example.com'')))])])
   \<and> (\<exists>pre post pre' post'.
    JObject [(lit ''error'', JObject [(lit ''message'', JString (lit ''gateway token missing''))])]
      = (JObject (pre @ (lit ''error'',
           JObject (pre' @ (lit ''message'', JString (lit ''gateway token missing'')) # post'))
           # post) :: jsstring json)
    \<and> (let rewritten =
             JObject (pre @ (lit ''error'',
               JObject (pre' @ (lit ''message'',
                 JString (transformErrorMessage (lit ''gateway token missing'')
                            (lit ''example.com''))) # post')) # post)
       in containerWs_message lexemeNumbers (lit ''example.com'') OPEN
            (Text (lit ''{"error":{"message":"gateway token missing"}}'')) =
          [SendCall ServerWs
             (Text (if StringifyReturns lexemeNumbers rewritten
                    then JSON_stringify lexemeNumbers rewritten
                    else lit ''{"error":{"message":"gateway token missing"}}''))]))\<close>
proof -
  have h2: "error_message_field
      (JObject [(lit ''error'',
         JObject [(lit ''message'', JString (lit ''gateway token missing''))])]
       :: jsstring json)
    = Some (JString (lit ''gateway token missing''))"
    by (simp add: error_message_field_def)
  have h3: "lit ''gateway token missing'' \<noteq> []"
    by (simp add: lit_def)
  show ?thesis
    using error_message_rewritten [OF parse_token_missing h2 h3, of "lit ''example.com''" OPEN]
      lexemeNumbers_returns
    by simp
qed

theorem empty_error_message_not_reserialized:
  \<open>JSON_parse lexemeNumbers (lit ''{"error":{"message":""} }'') =
     Some (JObject [(lit ''error'', JObject [(lit ''message'', JString [])])])
   \<and> error_message_field
       (JObject [(lit ''error'', JObject [(lit ''message'', JString [])])] :: jsstring json)
     = Some (JString [])
   \<and> containerWs_message lexemeNumbers (lit ''h'') OPEN
       (Text (lit ''{"error":{"message":""} }'')) =
     [SendCall ServerWs (Text (lit ''{"error":{"message":""} }''))]
   \<and> containerWs_message lexemeNumbers (lit ''h'') OPEN
       (Text (lit ''{"error":{"message":""} }'')) \<noteq>
     [SendCall ServerWs (Text (JSON_stringify lexemeNumbers
        (JObject [(lit ''error'',
           JObject [(lit ''message'', JString (transformErrorMessage [] (lit ''h'')))])])))]\<close>
proof -
  have t: "transformErrorMessage [] (lit ''h'') = []"
    by (simp add: transformErrorMessage_def lit_def)
  have f: "error_message_field
       (JObject [(lit ''error'', JObject [(lit ''message'', JString [])])] :: jsstring json)
     = Some (JString [])"
    by (simp add: error_message_field_def)
  have c: \<open>containerWs_message lexemeNumbers (lit ''h'') OPEN
       (Text (lit ''{"error":{"message":""} }'')) =
     [SendCall ServerWs (Text (lit ''{"error":{"message":""} }''))]\<close>
    by (simp add: containerWs_message_def intercept_def parse_empty_message
        readErrorMessage_field f)
  have s: \<open>JSON_stringify lexemeNumbers
        (JObject [(lit ''error'', JObject [(lit ''message'', JString [])])])
      = lit ''{"error":{"message":"'' @ [] @ lit ''"}}''\<close>
    by (rule stringify_error_message) simp
  have n: \<open>lit ''{"error":{"message":""} }'' \<noteq> lit ''{"error":{"message":"'' @ [] @ lit ''"}}''\<close>
    by (simp add: lit_def)
  show ?thesis
    using parse_empty_message f c s n t by simp
qed


section \<open>Closing a relay session\<close>

lemma length_lit: "length (lit s) = length s"
  by (simp add: lit_def)

lemma containerWs_close_units:
  "\<exists>r. containerWs_close h code reason = [CloseCall ServerWs code r] \<and> length r \<le> 123"
  by (simp add: containerWs_close_def Let_def String_slice_def length_lit)

lemma utf8_length_ascii: "\<forall>c\<in>set s. c < 0x80 \<Longrightarrow> utf8_length s = length s"
  by (induction s rule: utf8_length.induct) simp_all

lemma ascii_lit: "\<forall>c\<in>set (lit s). c < 0x80 \<Longrightarrow> utf8_length (lit s) = length s"
  by (simp add: utf8_length_ascii length_lit)

lemma transformErrorMessage_ascii:
  assumes "\<forall>c\<in>set m. c < 0x80" and "\<forall>c\<in>set h. c < 0x80"
  shows "\<forall>c\<in>set (transformErrorMessage m h). c < 0x80"
proof -
  have "\<forall>c\<in>set (lit ''Invalid or missing token. Visit https://''). c < 0x80"
    and "\<forall>c\<in>set (lit ''?token={REPLACE_WITH_YOUR_TOKEN}''). c < 0x80"
    and "\<forall>c\<in>set (lit ''Pairing required. Visit https://''). c < 0x80"
    and "\<forall>c\<in>set (lit ''/_admin/''). c < 0x80"
    by (simp_all add: lit_def)
  with assms show ?thesis
    by (auto simp add: transformErrorMessage_def)
qed

text \<open>
  On ASCII text a code unit is a byte, and there the close listener keeps the reason
  within 123 bytes.
\<close>

lemma containerWs_close_ascii:
  assumes "\<forall>c\<in>set reason. c < 0x80" and "\<forall>c\<in>set h. c < 0x80"
  shows "\<exists>r. containerWs_close h code reason = [CloseCall ServerWs code r]
             \<and> utf8_length r \<le> 123"
proof -
  let ?t = "transformErrorMessage reason h"
  have a: "\<forall>c\<in>set ?t. c < 0x80"
    using assms by (rule transformErrorMessage_ascii)
  show ?thesis
  proof (cases "length ?t > 123")
    case False
    with a show ?thesis
      by (simp add: containerWs_close_def Let_def utf8_length_ascii)
  next
    case True
    have "\<forall>c\<in>set (take 120 ?t @ lit ''...''). c < 0x80"
      using a by (auto simp add: lit_def dest: in_set_takeD)
    then have "utf8_length (take 120 ?t @ lit ''...'') = length (take 120 ?t @ lit ''...'')"
      by (rule utf8_length_ascii)
    with True show ?thesis
      by (simp add: containerWs_close_def Let_def String_slice_def length_lit)
  qed
qed

lemma length_le_utf8_length: "length s \<le> utf8_length s"
  by (induction s rule: utf8_length.induct) (auto split: if_splits)

lemma containerWs_close_bye:
  "containerWs_close h 1000 (lit ''bye'') = [CloseCall ServerWs 1000 (lit ''bye'')]"
  by (simp add: containerWs_close_def transformErrorMessage_def lit_def)

lemma containerWs_close_200_ascii:
  "containerWs_close (lit ''h'') 1000 (replicate 200 0x61)
     = [CloseCall ServerWs 1000 (replicate 120 0x61 @ lit ''...'')]"
  by code_simp

text \<open>
  Beyond what a close frame can carry the test on code units and the bound on bytes
  part: one hundred times U+00E9 is 100 code units and 200 bytes, and would pass whole.
\<close>

lemma containerWs_close_beyond_frame:
  "containerWs_close (lit ''h'') 1000 (replicate 100 0xE9)
     = [CloseCall ServerWs 1000 (replicate 100 0xE9)]
   \<and> utf8_length (replicate 100 0xE9) = 200"
  by code_simp

text \<open>
  Claim C3. When the gateway's socket closes with a reason (at most 123 bytes, as a close
  frame carries) on a request whose host is ASCII (as the host of a URL is), the client's
  socket is closed with the same code and with the translated reason, cut so that it is
  at most 123 bytes long: where the translation is longer than 123 bytes it is ASCII, and
  the reason sent is its first 120 characters and "...", 123 characters in all; otherwise
  the reason sent is the translation itself. The examples after the theorem are a
  translation of 200 bytes, and the reason "bye" with code 1000.
\<close>

theorem containerWs_close_within_123_bytes:
  assumes "utf8_length reason \<le> 123" and "\<forall>c\<in>set h. c < 0x80"
  shows "(let translated = transformErrorMessage reason h;
              forwarded = (if utf8_length translated > 123
                           then take 120 translated @ lit ''...''
                           else translated)
          in containerWs_close h code reason = [CloseCall ServerWs code forwarded]
             \<and> utf8_length forwarded \<le> 123
             \<and> (utf8_length translated > 123 \<longrightarrow>
                  (\<forall>c\<in>set translated. c < 0x80) \<and> length forwarded = 123))"
proof (cases "transformErrorMessage reason h = reason")
  case True
  moreover have "length reason \<le> 123"
    using length_le_utf8_length [of reason] assms(1) by simp
  ultimately show ?thesis
    using assms(1) by (simp add: containerWs_close_def Let_def)
next
  case False
  let ?t = "transformErrorMessage reason h"
  have "?t = lit ''Invalid or missing token. Visit https://'' @ h
               @ lit ''?token={REPLACE_WITH_YOUR_TOKEN}''
        \<or> ?t = lit ''Pairing required. Visit https://'' @ h @ lit ''/_admin/''"
    using False by (auto simp add: transformErrorMessage_def split: if_splits)
  then have a: "\<forall>c\<in>set ?t. c < 0x80"
    using assms(2) by (auto simp add: lit_def)
  then have u: "utf8_length ?t = length ?t"
    by (rule utf8_length_ascii)
  show ?thesis
  proof (cases "length ?t > 123")
    case False
    with u show ?thesis
      by (simp add: containerWs_close_def Let_def)
  next
    case True
    have "\<forall>c\<in>set (take 120 ?t @ lit ''...''). c < 0x80"
      using a by (auto simp add: lit_def dest: in_set_takeD)
    then have "utf8_length (take 120 ?t @ lit ''...'') = length (take 120 ?t @ lit ''...'')"
      by (rule utf8_length_ascii)
    with True u a show ?thesis
      by (simp add: containerWs_close_def Let_def String_slice_def length_lit)
  qed
qed

theorem containerWs_close_within_123_bytes_witness:
  "utf8_length (transformErrorMessage (lit ''pairing required'') (replicate 160 0x61)) = 200
   \<and> containerWs_close (replicate 160 0x61) 1000 (lit ''pairing required'')
       = [CloseCall ServerWs 1000
            (lit ''Pairing required. Visit https://'' @ replicate 88 0x61 @ lit ''...'')]
   \<and> length (lit ''Pairing required. Visit https://'' @ replicate 88 0x61 @ lit ''...'') = 123
   \<and> containerWs_close (lit ''example.com'') 1000 (lit ''bye'')
       = [CloseCall ServerWs 1000 (lit ''bye'')]"
proof -
  have h1: "utf8_length (lit ''pairing required'') \<le> 123"
    by (simp add: lit_def)
  have h2: "\<forall>c\<in>set (replicate 160 (0x61 :: code_unit)). c < 0x80"
    by simp
  have t: "transformErrorMessage (lit ''pairing required'') (replicate 160 0x61)
      = lit ''Pairing required. Visit https://'' @ replicate 160 0x61 @ lit ''/_admin/''"
    by (simp add: transformErrorMessage_def lit_def)
  have "\<forall>c\<in>set (lit ''Pairing required. Visit https://'' @ replicate 160 0x61
                   @ lit ''/_admin/''). c < 0x80"
    by (simp add: lit_def)
  then have u: "utf8_length (lit ''Pairing required. Visit https://'' @ replicate 160 0x61
                   @ lit ''/_admin/'') = 200"
    by (simp add: utf8_length_ascii length_lit)
  have k: "take 120 (lit ''Pairing required. Visit https://'' @ replicate 160 0x61
                   @ lit ''/_admin/'')
      = lit ''Pairing required. Visit https://'' @ replicate 88 0x61"
    by (simp add: length_lit)
  have g1: "utf8_length (lit ''bye'') \<le> 123"
    by (simp add: lit_def)
  have g2: "\<forall>c\<in>set (lit ''example.com''). c < 0x80"
    by (simp add: lit_def)
  have b: "transformErrorMessage (lit ''bye'') (lit ''example.com'') = lit ''bye''"
    by (simp add: transformErrorMessage_def lit_def)
  have b': "\<not> utf8_length (lit ''bye'') > 123"
    by (simp add: lit_def)
  show ?thesis
    using containerWs_close_within_123_bytes [OF h1 h2, of 1000]
      containerWs_close_within_123_bytes [OF g1 g2, of 1000]
    by (simp add: Let_def t u k b b' length_lit)
qed


section \<open>Transport errors\<close>

text \<open>
  Claim C6. Whatever the error event of one socket holds, the other socket is closed with
  code 1011 and a fixed reason: "Client error" for an error of the client's side,
  "Container error" for an error of the gateway's side; the two reasons differ.
\<close>

theorem error_listeners_close_1011:
  "serverWs_error ev = [CloseCall ContainerWs 1011 (lit ''Client error'')]
   \<and> containerWs_error ev' = [CloseCall ServerWs 1011 (lit ''Container error'')]
   \<and> lit ''Client error'' \<noteq> lit ''Container error''"
  by (simp add: serverWs_error_def containerWs_error_def lit_def)


section \<open>The route GET /ws\<close>

text \<open>The bodies of the two JSON responses, as \<open>c.json\<close> serialises them.\<close>

lemma body_of_426:
  \<open>JSON_stringify N (JObject [(lit ''error'', JString (lit ''WebSocket upgrade required''))])
     = lit ''{"error":"WebSocket upgrade required"}''\<close>
  by (simp add: lit_def QuoteJSONString_def quoteUnit_def isLeadingSurrogate_def
      isTrailingSurrogate_def)

lemma body_of_503:
  \<open>JSON_stringify N
     (JObject [(lit ''error'', JString (lit ''Moltbot gateway failed to start'')),
               (lit ''details'', JString details)])
     = lit ''{"error":"Moltbot gateway failed to start","details":''
       @ QuoteJSONString details @ lit ''}''\<close>
  by (simp add: lit_def QuoteJSONString_def quoteUnit_def isLeadingSurrogate_def
      isTrailingSurrogate_def)

text \<open>
  Claim C7. A request whose \<open>Upgrade\<close> header is absent, or is not "websocket" in any
  case of letters, is answered 426 with the JSON body
  \<open>{"error": "WebSocket upgrade required"}\<close>; the route calls nothing: neither the gateway
  module nor the sandbox, and it sets up no relay.
\<close>

theorem upgrade_required:
  assumes "\<not> isWebSocketRequest req"
  shows "ws_route e req =
    (JsonResponse (JObject [(lit ''error'', JString (lit ''WebSocket upgrade required''))]) 426,
     [])"
  using assms by (simp add: ws_route_def)

theorem upgrade_required_witness:
  "\<not> isWebSocketRequest \<lparr>upgrade = Some (lit ''h2c''), url_host = lit ''example.com''\<rparr>
   \<and> (ws_route
        \<lparr>findExistingMoltbotProcess = Inr None, ensureMoltbotGateway = Inr (),
         wsConnect = Inl OtherValue\<rparr>
        \<lparr>upgrade = Some (lit ''h2c''), url_host = lit ''example.com''\<rparr>
       :: unit outcome \<times> call list) =
    (JsonResponse (JObject [(lit ''error'', JString (lit ''WebSocket upgrade required''))]) 426,
     [])"
proof -
  have h: "\<not> isWebSocketRequest \<lparr>upgrade = Some (lit ''h2c''), url_host = lit ''example.com''\<rparr>"
    by (simp add: isWebSocketRequest_def String_toLowerCase_def lit_def)
  show ?thesis using h upgrade_required [OF h] by simp
qed

text \<open>
  Claim C8. When the gateway is not ready and \<open>ensureMoltbotGateway\<close> throws, the route
  answers 503 with the JSON body \<open>{"error": "Moltbot gateway failed to start", "details": d}\<close>,
  where \<open>d\<close> is the message of the error thrown ("Unknown error" for a thrown value that is
  no error object). It has then called the process lookup and the gateway start only: it
  does not connect to the gateway and sets up no relay.
\<close>

theorem gateway_start_failure:
  assumes "isWebSocketRequest req"
    and "findExistingMoltbotProcess e = Inr existing"
    and "\<not> isGatewayReady existing"
    and "ensureMoltbotGateway e = Inl err"
  shows "ws_route e req =
    (JsonResponse
       (JObject [(lit ''error'', JString (lit ''Moltbot gateway failed to start'')),
                 (lit ''details'',
                  JString (case err of ErrorInstance m \<Rightarrow> m
                                     | OtherValue \<Rightarrow> lit ''Unknown error''))]) 503,
     [FindExistingMoltbotProcess, EnsureMoltbotGateway])"
  using assms by (cases err) (simp_all add: ws_route_def)

theorem gateway_start_failure_witness:
  "(ws_route
      \<lparr>findExistingMoltbotProcess = Inr (Some \<lparr>process_status = lit ''starting''\<rparr>),
       ensureMoltbotGateway = Inl (ErrorInstance (lit ''exit code 1'')),
       wsConnect = Inl OtherValue\<rparr>
      \<lparr>upgrade = Some (lit ''WebSocket''), url_host = lit ''example.com''\<rparr>
    :: unit outcome \<times> call list) =
    (JsonResponse
       (JObject [(lit ''error'', JString (lit ''Moltbot gateway failed to start'')),
                 (lit ''details'', JString (lit ''exit code 1''))]) 503,
     [FindExistingMoltbotProcess, EnsureMoltbotGateway])"
proof -
  let ?req = "\<lparr>upgrade = Some (lit ''WebSocket''), url_host = lit ''example.com''\<rparr>"
  let ?e = "\<lparr>findExistingMoltbotProcess = Inr (Some \<lparr>process_status = lit ''starting''\<rparr>),
       ensureMoltbotGateway = Inl (ErrorInstance (lit ''exit code 1'')),
       wsConnect = Inl OtherValue\<rparr>"
  have h1: "isWebSocketRequest ?req"
    by (simp add: isWebSocketRequest_def String_toLowerCase_def lit_def lower_unit_def)
  have h2: "findExistingMoltbotProcess ?e = Inr (Some \<lparr>process_status = lit ''starting''\<rparr>)"
    by simp
  have h3: "\<not> isGatewayReady (Some \<lparr>process_status = lit ''starting''\<rparr>)"
    by (simp add: isGatewayReady_def lit_def)
  have h4: "ensureMoltbotGateway ?e = Inl (ErrorInstance (lit ''exit code 1''))"
    by simp
  show ?thesis using gateway_start_failure [OF h1 h2 h3 h4] by simp
qed

text \<open>
  Claim C9. When the connection to the gateway returns a response without a WebSocket,
  the route returns that response itself, with its status, headers and body, and sets
  up no relay.
\<close>

theorem fallback_response:
  assumes "isWebSocketRequest req"
    and "findExistingMoltbotProcess e = Inr existing"
    and "isGatewayReady existing \<or> ensureMoltbotGateway e = Inr ()"
    and "wsConnect e = Inr r"
    and "webSocket r = None"
  shows "fst (ws_route e req) = ContainerResponse r
    \<and> NewWebSocketPair \<notin> set (snd (ws_route e req))"
  using assms by (auto simp add: ws_route_def connect_def)

theorem fallback_response_witness:
  "fst (ws_route
      \<lparr>findExistingMoltbotProcess = Inr (Some \<lparr>process_status = lit ''running''\<rparr>),
       ensureMoltbotGateway = Inr (),
       wsConnect = Inr \<lparr>resp_status = 500, resp_headers = [],
                        resp_body = [0x62, 0x6F, 0x6F, 0x6D], webSocket = None\<rparr>\<rparr>
      \<lparr>upgrade = Some (lit ''websocket''), url_host = lit ''example.com''\<rparr>
    :: unit outcome \<times> call list) =
    ContainerResponse \<lparr>resp_status = 500, resp_headers = [],
                       resp_body = [0x62, 0x6F, 0x6F, 0x6D], webSocket = None\<rparr>"
proof -
  let ?req = "\<lparr>upgrade = Some (lit ''websocket''), url_host = lit ''example.com''\<rparr>"
  let ?r = "\<lparr>resp_status = 500, resp_headers = [],
             resp_body = [0x62, 0x6F, 0x6F, 0x6D], webSocket = None\<rparr>"
  let ?e = "\<lparr>findExistingMoltbotProcess = Inr (Some \<lparr>process_status = lit ''running''\<rparr>),
       ensureMoltbotGateway = Inr (), wsConnect = Inr ?r\<rparr>"
  have h1: "isWebSocketRequest ?req"
    by (simp add: isWebSocketRequest_def String_toLowerCase_def lit_def lower_unit_def)
  have h2: "findExistingMoltbotProcess ?e = Inr (Some \<lparr>process_status = lit ''running''\<rparr>)"
    by simp
  have h3: "isGatewayReady (Some \<lparr>process_status = lit ''running''\<rparr>)
            \<or> ensureMoltbotGateway ?e = Inr ()"
    by simp
  have h4: "wsConnect ?e = Inr ?r"
    by simp
  have h5: "webSocket ?r = None"
    by simp
  show ?thesis using fallback_response [OF h1 h2 h3 h4 h5] by (rule conjunct1)
qed


section \<open>The order of the process list\<close>

lemma String_localeCompare_le: "String_localeCompare x y \<le> 0 \<longleftrightarrow> x \<le> y"
  by (induction x y rule: String_localeCompare.induct) auto

lemma statusRank_listed:
  assumes "s \<notin> set objectPrototypeNames"
  shows "statusRank s =
     Number (if s = lit ''running'' then 0
             else if s = lit ''starting'' then 1
             else if s = lit ''completed'' then 2
             else if s = lit ''failed'' then 3
             else 99)"
  using assms by (simp add: statusRank_def statusOrder_def)

lemma timeOf_startTime: "timeOf p = (case startTime p of None \<Rightarrow> [] | Some t \<Rightarrow> t)"
  by (simp add: timeOf_def split: option.splits)

text \<open>
  On entries whose status is no inherited name the comparison is a number, and it is
  at most 0 exactly when the first entry has the lower rank, or the same rank and a
  start time that is not less.
\<close>

lemma compareProcesses_le:
  assumes "status a \<notin> set objectPrototypeNames" and "status b \<notin> set objectPrototypeNames"
    and "rank = (\<lambda>s. if s = lit ''running'' then 0
                      else if s = lit ''starting'' then 1
                      else if s = lit ''completed'' then 2
                      else if s = lit ''failed'' then 3
                      else (99 :: int))"
    and "start = (\<lambda>p. case startTime p of None \<Rightarrow> [] | Some t \<Rightarrow> t)"
  shows "SortCompare compareProcesses a b \<le> 0 \<longleftrightarrow>
     rank (status a) < rank (status b)
     \<or> (rank (status a) = rank (status b) \<and> start b \<le> start a)"
proof -
  have a: "statusRank (status a) = Number (rank (status a))"
    using statusRank_listed [OF assms(1)] assms(3) by simp
  have b: "statusRank (status b) = Number (rank (status b))"
    using statusRank_listed [OF assms(2)] assms(3) by simp
  have t: "timeOf a = start a" "timeOf b = start b"
    by (simp_all add: timeOf_startTime assms(4))
  show ?thesis
    by (auto simp add: SortCompare_def compareProcesses_def Let_def a b t
        String_localeCompare_le)
qed

lemma mset_sort_insert: "mset (sort_insert cmp x ys) = add_mset x (mset ys)"
  by (induction ys) simp_all

lemma mset_Array_sort: "mset (Array_sort cmp xs) = mset xs"
  by (induction xs) (simp_all add: Array_sort_def mset_sort_insert)

lemma set_sort_insert: "set (sort_insert cmp x ys) = insert x (set ys)"
  by (induction ys) auto

lemma set_Array_sort: "set (Array_sort cmp xs) = set xs"
  using mset_Array_sort [of cmp xs] by (metis set_mset_mset)

text \<open>
  Insertion keeps a list sorted where the comparison, on the entries at hand, decides
  a relation that is total and transitive.
\<close>

lemma sorted_sort_insert:
  assumes le: "\<And>a b. a \<in> S \<Longrightarrow> b \<in> S \<Longrightarrow> (SortCompare cmp a b \<le> 0) = le a b"
    and total: "\<And>a b. a \<in> S \<Longrightarrow> b \<in> S \<Longrightarrow> le a b \<or> le b a"
    and trans: "\<And>a b c. a \<in> S \<Longrightarrow> b \<in> S \<Longrightarrow> c \<in> S \<Longrightarrow> le a b \<Longrightarrow> le b c \<Longrightarrow> le a c"
    and "x \<in> S" and "set ys \<subseteq> S" and "sorted_wrt le ys"
  shows "sorted_wrt le (sort_insert cmp x ys)"
  using assms(5,6)
proof (induction ys)
  case Nil
  then show ?case by simp
next
  case (Cons y ys)
  have y: "y \<in> S" and ys: "set ys \<subseteq> S"
    using Cons.prems(1) by simp_all
  show ?case
  proof (cases "SortCompare cmp x y \<le> 0")
    case True
    then have xy: "le x y"
      using le [OF \<open>x \<in> S\<close> y] by simp
    have "le x z" if "z \<in> set ys" for z
    proof -
      have "le y z" using Cons.prems(2) that by simp
      with xy show ?thesis
        using trans [OF \<open>x \<in> S\<close> y] ys that by blast
    qed
    with True xy Cons.prems(2) show ?thesis by simp
  next
    case False
    then have "\<not> le x y"
      using le [OF \<open>x \<in> S\<close> y] by simp
    then have "le y x"
      using total [OF \<open>x \<in> S\<close> y] by simp
    moreover have "sorted_wrt le (sort_insert cmp x ys)"
      using Cons.IH ys Cons.prems(2) by simp
    ultimately show ?thesis
      using False Cons.prems(2) by (auto simp add: set_sort_insert)
  qed
qed

lemma sorted_Array_sort:
  assumes le: "\<And>a b. a \<in> S \<Longrightarrow> b \<in> S \<Longrightarrow> (SortCompare cmp a b \<le> 0) = le a b"
    and total: "\<And>a b. a \<in> S \<Longrightarrow> b \<in> S \<Longrightarrow> le a b \<or> le b a"
    and trans: "\<And>a b c. a \<in> S \<Longrightarrow> b \<in> S \<Longrightarrow> c \<in> S \<Longrightarrow> le a b \<Longrightarrow> le b c \<Longrightarrow> le a c"
    and "set xs \<subseteq> S"
  shows "sorted_wrt le (Array_sort cmp xs)"
  using assms(4)
proof (induction xs)
  case Nil
  show ?case by (simp add: Array_sort_def)
next
  case (Cons x xs)
  then have "sorted_wrt le (Array_sort cmp xs)" and "x \<in> S"
    and "set (Array_sort cmp xs) \<subseteq> S"
    by (simp_all add: set_Array_sort)
  then have "sorted_wrt le (sort_insert cmp x (Array_sort cmp xs))"
    using sorted_sort_insert [of S cmp le x "Array_sort cmp xs"] le total trans by blast
  then show ?case by (simp add: Array_sort_def)
qed

text \<open>Entries the comparison does not tell apart keep their order.\<close>

lemma filter_sort_insert:
  assumes "\<And>a b. a \<in> S \<Longrightarrow> b \<in> S \<Longrightarrow> P a \<Longrightarrow> P b \<Longrightarrow> SortCompare cmp a b \<le> 0"
    and "x \<in> S" and "set ys \<subseteq> S"
  shows "filter P (sort_insert cmp x ys) = filter P (x # ys)"
  using assms by (induction ys) auto

lemma filter_Array_sort:
  assumes "\<And>a b. a \<in> S \<Longrightarrow> b \<in> S \<Longrightarrow> P a \<Longrightarrow> P b \<Longrightarrow> SortCompare cmp a b \<le> 0"
    and "set xs \<subseteq> S"
  shows "filter P (Array_sort cmp xs) = filter P xs"
  using assms(2)
proof (induction xs)
  case Nil
  show ?case by (simp add: Array_sort_def)
next
  case (Cons x xs)
  then have "x \<in> S" and "set (Array_sort cmp xs) \<subseteq> S"
    by (simp_all add: set_Array_sort)
  then have "filter P (sort_insert cmp x (Array_sort cmp xs))
      = filter P (x # Array_sort cmp xs)"
    using filter_sort_insert [of S P cmp x "Array_sort cmp xs"] assms(1) by blast
  with Cons show ?case by (simp add: Array_sort_def)
qed

text \<open>
  Claim C10. For a process list in which no status is a name that every object inherits
  and every start time is a timestamp of \<open>toISOString\<close>, the response of
  GET /debug/processes counts the processes and lists them all, ordered by status
  (running, starting, completed, failed, and any other status after these) and, within
  one status, by start time from the greatest timestamp down, an absent start time
  counting as the empty string. Entries equal in status rank and start time keep the
  order they came in, so the list is a function of the input list.
\<close>

theorem processes_response_order:
  assumes "\<forall>p\<in>set ps. status p \<notin> set objectPrototypeNames"
    and "\<forall>p\<in>set ps. case startTime p of None \<Rightarrow> True | Some t \<Rightarrow> isoTimestamp t"
  shows "fst (processes_response ps) = length ps
   \<and> mset (snd (processes_response ps)) = mset ps
   \<and> (let rank = (\<lambda>s. if s = lit ''running'' then 0
                        else if s = lit ''starting'' then 1
                        else if s = lit ''completed'' then 2
                        else if s = lit ''failed'' then 3
                        else (99 :: int));
          start = (\<lambda>p. case startTime p of None \<Rightarrow> [] | Some t \<Rightarrow> t)
      in sorted_wrt
           (\<lambda>a b. rank (status a) < rank (status b)
                  \<or> (rank (status a) = rank (status b) \<and> start b \<le> start a))
           (snd (processes_response ps))
         \<and> filter (\<lambda>p. rank (status p) = r \<and> start p = t) (snd (processes_response ps))
           = filter (\<lambda>p. rank (status p) = r \<and> start p = t) ps)"
proof -
  define rank where "rank = (\<lambda>s. if s = lit ''running'' then 0
                        else if s = lit ''starting'' then 1
                        else if s = lit ''completed'' then 2
                        else if s = lit ''failed'' then 3
                        else (99 :: int))"
  define start :: "processData \<Rightarrow> jsstring"
    where "start = (\<lambda>p. case startTime p of None \<Rightarrow> [] | Some t \<Rightarrow> t)"
  define le :: "processData \<Rightarrow> processData \<Rightarrow> bool"
    where "le = (\<lambda>a b. rank (status a) < rank (status b)
                  \<or> (rank (status a) = rank (status b) \<and> start b \<le> start a))"
  define S :: "processData set" where "S = {p. status p \<notin> set objectPrototypeNames}"
  have S: "set ps \<subseteq> S"
    using assms(1) by (auto simp add: S_def)
  have cmp: "(SortCompare compareProcesses a b \<le> 0) = le a b" if "a \<in> S" and "b \<in> S" for a b
    using that compareProcesses_le [of a b rank start]
    by (simp add: S_def le_def rank_def start_def)
  have total: "le a b \<or> le b a" for a b
    unfolding le_def by (metis linorder_linear not_less_iff_gr_or_eq)
  have trans: "le a c" if "le a b" and "le b c" for a b c
    using that unfolding le_def by (metis order_less_trans order_trans)
  have srt: "sorted_wrt le (Array_sort compareProcesses ps)"
    using cmp total trans S
    by (rule sorted_Array_sort [where S = S and le = le]) blast+
  have stab: "filter (\<lambda>p. rank (status p) = r \<and> start p = t) (Array_sort compareProcesses ps)
       = filter (\<lambda>p. rank (status p) = r \<and> start p = t) ps"
  proof (rule filter_Array_sort [where S = S])
    show "set ps \<subseteq> S" by (rule S)
  next
    fix a b
    assume "a \<in> S" and "b \<in> S"
      and "rank (status a) = r \<and> start a = t" and "rank (status b) = r \<and> start b = t"
    then show "SortCompare compareProcesses a b \<le> 0"
      using cmp [of a b] by (simp add: le_def)
  qed
  show ?thesis
    using srt stab
    unfolding Let_def rank_def [symmetric] start_def [symmetric]
    by (simp add: processes_response_def mset_Array_sort le_def)
qed

theorem processes_response_order_witness:
  "map proc_id (snd (processes_response exampleProcesses))
     = [lit ''d'', lit ''b'', lit ''e'', lit ''a'', lit ''c'']
   \<and> fst (processes_response exampleProcesses) = 5
   \<and> (let rank = (\<lambda>s. if s = lit ''running'' then 0
                        else if s = lit ''starting'' then 1
                        else if s = lit ''completed'' then 2
                        else if s = lit ''failed'' then 3
                        else (99 :: int));
          start = (\<lambda>p. case startTime p of None \<Rightarrow> [] | Some t \<Rightarrow> t)
      in sorted_wrt
           (\<lambda>a b. rank (status a) < rank (status b)
                  \<or> (rank (status a) = rank (status b) \<and> start b \<le> start a))
           (snd (processes_response exampleProcesses)))"
proof -
  have h1: "\<forall>p\<in>set exampleProcesses. status p \<notin> set objectPrototypeNames"
    by (simp add: exampleProcesses_def objectPrototypeNames_def lit_def)
  have h2: "\<forall>p\<in>set exampleProcesses.
      case startTime p of None \<Rightarrow> True | Some t \<Rightarrow> isoTimestamp t"
    by (simp add: exampleProcesses_def isoTimestamp_def isoShape_def lit_def)
  have e: "map proc_id (snd (processes_response exampleProcesses))
     = [lit ''d'', lit ''b'', lit ''e'', lit ''a'', lit ''c'']"
    by (simp add: processes_response_def Array_sort_def SortCompare_def compareProcesses_def
        statusRank_def statusOrder_def objectPrototypeNames_def timeOf_def
        exampleProcesses_def lit_def)
  have n: "length exampleProcesses = 5"
    by (simp add: exampleProcesses_def)
  show ?thesis
    using processes_response_order [OF h1 h2, of 0 "[]"] e n
    by (simp add: Let_def)
qed

end
